theory Spec2Isabelle
  imports Complex_Main "HOL-Library.Multiset"
begin

section \<open>Data frames\<close>

text \<open>
  The module \<^verbatim>\<open>vaemof/experiments.py\<close> works on pandas data frames read from CSV
  files. A cell is a string, a number, a boolean or a missing value (pandas' NaN). Numbers
  are only ever compared (with each other and with the constant 200.0), never computed
  with, so a number cell holds the exact value of the float or integer it stands for.
  A column that \<^verbatim>\<open>read_csv\<close> produces holds cells of one kind, plus NaN where the
  field is empty. Cells are compared by value, as pandas' duplicate detection does; this
  includes the missing value.
\<close>

datatype cell = Str string | Num real | Bool bool | NaN

text \<open>
  A row gives a cell for every column name; only the names listed in \<open>columns\<close> are part
  of the frame. Every row carries its index label. \<^verbatim>\<open>read_csv\<close> labels the rows
  \<open>0, 1, 2, ...\<close>; filters keep the labels, \<^verbatim>\<open>reset_index\<close> renumbers them.
\<close>

type_synonym row = "string \<Rightarrow> cell"

record frame =
  columns :: "string list"
  rows :: "(nat \<times> row) list"

text \<open>The parsed content of a CSV file: the header line and the records in file order.\<close>

record csv_file =
  header :: "string list"
  records :: "row list"

type_synonym triple = "cell \<times> cell \<times> cell"

text \<open>
  Python exceptions. A \<open>KeyError\<close> says which key was missing: a column of a frame, a
  triple looked up in the registry dictionary, or a cell used as an index label.
\<close>

datatype key = ColumnKey string | TripleKey triple | LabelKey cell

datatype error =
    ValueError string
  | KeyError key
  | TypeError
  | AssertionError
  | ZeroDivisionError
  | UndefinedVariableError string

subsection \<open>The pandas operations the module calls\<close>

definition read_csv :: "csv_file \<Rightarrow> frame" where
  "read_csv f = \<lparr>columns = header f, rows = zip [0..<length (records f)] (records f)\<rparr>"

text \<open>
  \<^verbatim>\<open>df.rename(columns={old: new})\<close>: a column named \<open>old\<close> is renamed; when there is
  none, pandas ignores the entry and the frame is unchanged.
\<close>

definition rename_column :: "string \<Rightarrow> string \<Rightarrow> frame \<Rightarrow> frame" where
  "rename_column old new df =
     (if old \<in> set (columns df)
      then \<lparr>columns = map (\<lambda>c. if c = old then new else c) (columns df),
            rows = map (\<lambda>(l, r). (l, r(new := r old))) (rows df)\<rparr>
      else df)"

text \<open>
  \<^verbatim>\<open>drop_duplicates\<close> keeps the first row of every key value, in the frame's order.
  \<open>seen\<close> holds the key values met so far.
\<close>

fun keep_first :: "('a \<Rightarrow> 'k) \<Rightarrow> 'k list \<Rightarrow> 'a list \<Rightarrow> 'a list" where
  "keep_first k seen [] = []"
| "keep_first k seen (x # xs) =
     (if k x \<in> set seen then keep_first k seen xs
      else x # keep_first k (k x # seen) xs)"

definition cell_of :: "string \<Rightarrow> nat \<times> row \<Rightarrow> cell" where
  "cell_of c p = snd p c"

text \<open>\<^verbatim>\<open>df.drop_duplicates(subset=c)\<close>; a missing column is a \<open>KeyError\<close>.\<close>

definition drop_duplicates :: "string \<Rightarrow> frame \<Rightarrow> error + frame" where
  "drop_duplicates c df =
     (if c \<in> set (columns df)
      then Inr (df\<lparr>rows := keep_first (cell_of c) [] (rows df)\<rparr>)
      else Inl (KeyError (ColumnKey c)))"

text \<open>
  \<^verbatim>\<open>df[c].drop_duplicates().index\<close>: the labels of the first row of every value of
  column \<open>c\<close>.
\<close>

definition first_index :: "string \<Rightarrow> frame \<Rightarrow> error + nat list" where
  "first_index c df =
     (if c \<in> set (columns df)
      then Inr (map fst (keep_first (cell_of c) [] (rows df)))
      else Inl (KeyError (ColumnKey c)))"

text \<open>
  \<^verbatim>\<open>df.loc[index]\<close> for a list of labels: for every label in turn, the rows of the
  frame that carry it.
\<close>

definition loc :: "nat list \<Rightarrow> frame \<Rightarrow> frame" where
  "loc ls df = df\<lparr>rows := concat (map (\<lambda>l. filter (\<lambda>p. fst p = l) (rows df)) ls)\<rparr>"

text \<open>
  \<^verbatim>\<open>df.reset_index()\<close> renumbers the rows and keeps the old labels in a new first
  column, named \<^verbatim>\<open>index\<close>, or \<^verbatim>\<open>level_0\<close> when there is a column \<^verbatim>\<open>index\<close>
  already; it raises when the new name is taken too.
  \<^verbatim>\<open>df.reset_index(drop=True)\<close> only renumbers.
\<close>

definition renumber :: "(nat \<times> row) list \<Rightarrow> (nat \<times> row) list" where
  "renumber rs = zip [0..<length rs] (map snd rs)"

definition reset_index :: "frame \<Rightarrow> error + frame" where
  "reset_index df =
     (let name = (if ''index'' \<in> set (columns df) then ''level_0'' else ''index'')
      in if name \<in> set (columns df)
         then Inl (ValueError ''cannot insert level_0, already exists'')
         else Inr \<lparr>columns = name # columns df,
                   rows = renumber (map (\<lambda>(l, r). (l, r(name := Num (real l)))) (rows df))\<rparr>)"

definition reset_index_drop :: "frame \<Rightarrow> frame" where
  "reset_index_drop df = df\<lparr>rows := renumber (rows df)\<rparr>"

section \<open>The data set loader: \<^verbatim>\<open>get_generator_df\<close>\<close>

text \<open>
  The function prints a header, the shape and the column names; this output goes to the
  console and is no part of the result. Its three steps are
  \<^item> \<open>load_smiles\<close> (lines 118 to 120): read the file and, when the requested SMILES column
    is absent, rename the column \<^verbatim>\<open>SMILES\<close> to it;
  \<^item> \<open>dedup_smiles\<close> (lines 122 and 123): unless duplicates are wanted, keep the first row
    of every SMILES value;
  \<^item> \<open>testing_sample\<close> (lines 124 to 126): in test mode, keep the first row of every
    \<^verbatim>\<open>id2mof\<close> value and reset the index.
\<close>

definition load_smiles :: "csv_file \<Rightarrow> string \<Rightarrow> frame" where
  "load_smiles f smiles_column =
     (let df = read_csv f
      in if smiles_column \<notin> set (columns df)
         then rename_column ''SMILES'' smiles_column df
         else df)"

definition dedup_smiles :: "string \<Rightarrow> bool \<Rightarrow> frame \<Rightarrow> error + frame" where
  "dedup_smiles smiles_column use_duplicates df =
     (if \<not> use_duplicates then drop_duplicates smiles_column df else Inr df)"

definition testing_sample :: "bool \<Rightarrow> frame \<Rightarrow> error + frame" where
  "testing_sample testing df =
     (if testing
      then (case first_index ''id2mof'' df of
              Inl e \<Rightarrow> Inl e
            | Inr index \<Rightarrow> reset_index (loc index df))
      else Inr df)"

definition get_generator_df :: "csv_file \<Rightarrow> string \<Rightarrow> bool \<Rightarrow> bool \<Rightarrow> error + frame" where
  "get_generator_df f smiles_column use_duplicates testing =
     (case dedup_smiles smiles_column use_duplicates (load_smiles f smiles_column) of
        Inl e \<Rightarrow> Inl e
      | Inr df \<Rightarrow> testing_sample testing df)"




section \<open>The identity registry: \<^verbatim>\<open>get_mofdict\<close>\<close>

text \<open>The mode selector only chooses the list of column names handed back (lines 137 to 144).\<close>

definition mode_columns :: "string \<Rightarrow> error + string list" where
  "mode_columns mof_type =
     (if mof_type = ''id'' then Inr [''id2mof'']
      else if mof_type = ''cats'' then Inr [''metal_node'', ''organic_core'', ''topology'']
      else if mof_type = ''all''
      then Inr [''metal_node'', ''organic_core'', ''topology'', ''id2mof'']
      else Inl (ValueError (mof_type @ '' not understood!'')))"

text \<open>
  \<^verbatim>\<open>sort_values(by=c)\<close> orders numbers (and booleans, as 0 and 1) by value and strings
  by code point, puts missing values last, and raises a \<open>TypeError\<close> on a column that
  mixes strings with numbers. The model sorts by insertion; pandas' order of rows with
  equal keys is left to its sorting routine, so the model agrees with it where the keys of
  the sorted rows are distinct.
\<close>

fun str_le :: "string \<Rightarrow> string \<Rightarrow> bool" where
  "str_le [] t = True"
| "str_le (a # s) [] = False"
| "str_le (a # s) (b # t) =
     ((of_char a :: nat) < of_char b \<or> (a = b \<and> str_le s t))"

fun num_of :: "cell \<Rightarrow> real option" where
  "num_of (Num x) = Some x"
| "num_of (Bool b) = Some (if b then 1 else 0)"
| "num_of (Str s) = None"
| "num_of NaN = None"

fun is_str :: "cell \<Rightarrow> bool" where
  "is_str (Str s) = True"
| "is_str c = False"

fun cell_le :: "cell \<Rightarrow> cell \<Rightarrow> bool" where
  "cell_le a NaN = True"
| "cell_le NaN b = False"
| "cell_le (Str s) (Str t) = str_le s t"
| "cell_le a b = (case (num_of a, num_of b) of (Some x, Some y) \<Rightarrow> x \<le> y | _ \<Rightarrow> True)"

fun insert_row :: "string \<Rightarrow> nat \<times> row \<Rightarrow> (nat \<times> row) list \<Rightarrow> (nat \<times> row) list" where
  "insert_row c p [] = [p]"
| "insert_row c p (q # qs) =
     (if cell_le (cell_of c p) (cell_of c q) then p # q # qs else q # insert_row c p qs)"

definition sort_rows :: "string \<Rightarrow> (nat \<times> row) list \<Rightarrow> (nat \<times> row) list" where
  "sort_rows c rs = foldr (insert_row c) rs []"

definition sort_values :: "string \<Rightarrow> frame \<Rightarrow> error + frame" where
  "sort_values c df =
     (if c \<notin> set (columns df) then Inl (KeyError (ColumnKey c))
      else if list_ex (\<lambda>p. is_str (cell_of c p)) (rows df)
              \<and> list_ex (\<lambda>p. num_of (cell_of c p) \<noteq> None) (rows df)
      then Inl TypeError
      else Inr (df\<lparr>rows := sort_rows c (rows df)\<rparr>))"

definition mof_cols :: "string list" where
  "mof_cols = [''metal_node'', ''organic_core'', ''topology'']"

definition triple_of :: "row \<Rightarrow> triple" where
  "triple_of r = (r ''metal_node'', r ''organic_core'', r ''topology'')"

text \<open>The first of the names that is no column of the frame: the key of the \<open>KeyError\<close>.\<close>

definition first_missing :: "string list \<Rightarrow> string list \<Rightarrow> string option" where
  "first_missing names cols = find (\<lambda>n. n \<notin> set cols) names"

text \<open>
  The loop of lines 150 to 153 over the rows of \<^verbatim>\<open>sub_df\<close>. Both dictionaries are
  written at every row, so a later row overwrites an earlier one with the same key.
\<close>

type_synonym registry = "(cell \<rightharpoonup> triple) \<times> (triple \<rightharpoonup> cell)"

fun registry_loop :: "string list \<Rightarrow> (nat \<times> row) list \<Rightarrow> registry \<Rightarrow> error + registry" where
  "registry_loop cols [] reg = Inr reg"
| "registry_loop cols (p # ps) (ids2mof, mof2ids) =
     (case first_missing mof_cols cols of
        Some c \<Rightarrow> Inl (KeyError (ColumnKey c))
      | None \<Rightarrow>
          (let mof = triple_of (snd p)
           in registry_loop cols ps
                (ids2mof(cell_of ''id2mof'' p \<mapsto> mof), mof2ids(mof \<mapsto> cell_of ''id2mof'' p))))"

definition get_mofdict ::
  "frame \<Rightarrow> string \<Rightarrow> error + ((cell \<rightharpoonup> triple) \<times> (triple \<rightharpoonup> cell) \<times> string list)" where
  "get_mofdict df mof_type =
     (case mode_columns mof_type of
        Inl e \<Rightarrow> Inl e
      | Inr mof_columns \<Rightarrow>
     (case first_index ''id2mof'' df of
        Inl e \<Rightarrow> Inl e
      | Inr index \<Rightarrow>
     (case sort_values ''id2mof'' (loc index df) of
        Inl e \<Rightarrow> Inl e
      | Inr sub_df \<Rightarrow>
     (case registry_loop (columns sub_df) (rows sub_df) (Map.empty, Map.empty) of
        Inl e \<Rightarrow> Inl e
      | Inr (ids2mof, mof2ids) \<Rightarrow> Inr (ids2mof, mof2ids, mof_columns)))))"

text \<open>The rows the loop runs over when the frame has the \<^verbatim>\<open>id2mof\<close> column.\<close>

definition reference_rows :: "frame \<Rightarrow> (nat \<times> row) list" where
  "reference_rows df = keep_first (cell_of ''id2mof'') [] (rows df)"

section \<open>The validation and filter pipeline: \<^verbatim>\<open>get_prop_df\<close>\<close>

text \<open>
  \<^verbatim>\<open>df.sample(n=1000)\<close> draws rows without replacement and raises when the frame has
  fewer. The random generator is outside the module: \<open>rng\<close> is the stream of numbers it
  delivers, and the \<open>k\<close>-th draw takes the row at position \<open>rng k\<close> modulo the number of
  rows still left.
\<close>

fun sample_rows :: "(nat \<Rightarrow> nat) \<Rightarrow> nat \<Rightarrow> nat \<Rightarrow> 'a list \<Rightarrow> 'a list" where
  "sample_rows rng k 0 xs = []"
| "sample_rows rng k (Suc n) [] = []"
| "sample_rows rng k (Suc n) (x # xs) =
     (let i = rng k mod length (x # xs)
      in (x # xs) ! i # sample_rows rng (Suc k) n (take i (x # xs) @ drop (Suc i) (x # xs)))"

definition sample :: "(nat \<Rightarrow> nat) \<Rightarrow> nat \<Rightarrow> frame \<Rightarrow> error + frame" where
  "sample rng n df =
     (if length (rows df) < n
      then Inl (ValueError ''Cannot take a larger sample than population'')
      else Inr (df\<lparr>rows := sample_rows rng 0 n (rows df)\<rparr>))"

text \<open>Lines 164 to 169: the frame as loaded, after the sample of the test mode.\<close>

definition load_prop :: "(nat \<Rightarrow> nat) \<Rightarrow> csv_file \<Rightarrow> bool \<Rightarrow> error + frame" where
  "load_prop rng f testing =
     (let df = read_csv f
      in if testing
         then (case sample rng 1000 df of
                 Inl e \<Rightarrow> Inl e
               | Inr s \<Rightarrow> Inr (reset_index_drop s))
         else Inr df)"

text \<open>\<^verbatim>\<open>df[c] = ...\<close>: the column is overwritten, or appended when it is new.\<close>

definition set_column :: "string \<Rightarrow> (row \<Rightarrow> cell) \<Rightarrow> frame \<Rightarrow> frame" where
  "set_column c v df =
     \<lparr>columns = (if c \<in> set (columns df) then columns df else columns df @ [c]),
      rows = map (\<lambda>(l, r). (l, r(c := v r))) (rows df)\<rparr>"

text \<open>
  Lines 171 to 174. The scorer is an external collaborator: \<open>score\<close> is the second
  component of what \<^verbatim>\<open>get_score_from_smi\<close> returns.
\<close>

definition add_scscore :: "(cell \<Rightarrow> cell) \<Rightarrow> string \<Rightarrow> bool \<Rightarrow> frame \<Rightarrow> error + frame" where
  "add_scscore score smiles_column compute_scscore df =
     (if compute_scscore
      then (if smiles_column \<in> set (columns df)
            then Inr (set_column ''scscore'' (\<lambda>r. score (r smiles_column)) df)
            else Inl (KeyError (ColumnKey smiles_column)))
      else Inr df)"

text \<open>
  \<^verbatim>\<open>df.query('mask')\<close> evaluates the expression to the column \<^verbatim>\<open>mask\<close> and selects
  with \<^verbatim>\<open>df.loc[column]\<close>. What \<^verbatim>\<open>loc\<close> does depends on what the column holds:
  \<^item> a column of booleans is a mask, and the rows at the true positions are kept;
  \<^item> a column of booleans with missing values raises a \<open>ValueError\<close>;
  \<^item> any other column is a list of index labels: \<^verbatim>\<open>loc\<close> hands back, for every cell
    in turn, the row labelled by it, and raises a \<open>KeyError\<close> at a cell that is no label
    of the frame. A column of the integers 0 and 1 is of this kind.
  Only a non-negative whole number is a label, the labels being row numbers.
\<close>

fun is_bool :: "cell \<Rightarrow> bool" where
  "is_bool (Bool b) = True"
| "is_bool c = False"

fun label_of :: "cell \<Rightarrow> nat option" where
  "label_of (Num x) = (if 0 \<le> x \<and> real (nat \<lfloor>x\<rfloor>) = x then Some (nat \<lfloor>x\<rfloor>) else None)"
| "label_of c = None"

fun mask_labels :: "nat list \<Rightarrow> cell list \<Rightarrow> error + nat list" where
  "mask_labels index [] = Inr []"
| "mask_labels index (c # cs) =
     (case label_of c of
        None \<Rightarrow> Inl (KeyError (LabelKey c))
      | Some l \<Rightarrow>
          if l \<notin> set index then Inl (KeyError (LabelKey c))
          else (case mask_labels index cs of
                  Inl e \<Rightarrow> Inl e
                | Inr ls \<Rightarrow> Inr (l # ls)))"

definition query_mask :: "frame \<Rightarrow> error + frame" where
  "query_mask df =
     (if ''mask'' \<notin> set (columns df) then Inl (UndefinedVariableError ''mask'')
      else if list_all (\<lambda>p. is_bool (cell_of ''mask'' p)) (rows df)
      then Inr (df\<lparr>rows := filter (\<lambda>p. cell_of ''mask'' p = Bool True) (rows df)\<rparr>)
      else if list_all (\<lambda>p. is_bool (cell_of ''mask'' p) \<or> cell_of ''mask'' p = NaN) (rows df)
              \<and> list_ex (\<lambda>p. is_bool (cell_of ''mask'' p)) (rows df)
      then Inl (ValueError ''Cannot mask with non-boolean array containing NA / NaN values'')
      else (case mask_labels (map fst (rows df)) (map (cell_of ''mask'') (rows df)) of
              Inl e \<Rightarrow> Inl e
            | Inr ls \<Rightarrow> Inr (loc ls df)))"

text \<open>Lines 178 to 180: the removal count and the filtered frame.\<close>

definition mask_stage :: "frame \<Rightarrow> error + (int \<times> frame)" where
  "mask_stage df =
     (case query_mask df of
        Inl e \<Rightarrow> Inl e
      | Inr q \<Rightarrow> Inr (int (length (rows df)) - int (length (rows q)), reset_index_drop q))"

definition valid_mof :: "(triple \<rightharpoonup> cell) \<Rightarrow> row \<Rightarrow> bool" where
  "valid_mof mof2ids x = (mof2ids (triple_of x) \<noteq> None)"

text \<open>
  \<^verbatim>\<open>df[bs]\<close> for a Python list \<open>bs\<close>: a list of booleans selects the rows at the true
  positions; the empty list is a list of column names and selects no column.
\<close>

definition select_list :: "bool list \<Rightarrow> frame \<Rightarrow> frame" where
  "select_list bs df =
     (if bs = [] then df\<lparr>columns := []\<rparr>
      else df\<lparr>rows := map snd (filter fst (zip bs (rows df)))\<rparr>)"

text \<open>
  Line 186: the lookup \<^verbatim>\<open>mof2ids[tuple(x)]\<close> at every row, a \<open>KeyError\<close> at the first
  triple that is no key.
\<close>

fun lookup_rows :: "(triple \<rightharpoonup> cell) \<Rightarrow> (nat \<times> row) list \<Rightarrow> error + (nat \<times> row) list" where
  "lookup_rows mof2ids [] = Inr []"
| "lookup_rows mof2ids (p # ps) =
     (case mof2ids (triple_of (snd p)) of
        None \<Rightarrow> Inl (KeyError (TripleKey (triple_of (snd p))))
      | Some v \<Rightarrow>
          (case lookup_rows mof2ids ps of
             Inl e \<Rightarrow> Inl e
           | Inr qs \<Rightarrow> Inr ((fst p, (snd p)(''id2mof'' := v)) # qs)))"

text \<open>
  On a frame without rows, \<^verbatim>\<open>apply\<close> tries the function on a row of missing values
  to see what it returns; the lookup fails there, \<^verbatim>\<open>apply\<close> drops that error and hands
  back an empty frame instead of a column, and the assignment of a frame to the single
  column \<^verbatim>\<open>id2mof\<close> raises a \<open>ValueError\<close>. A frame without rows and without the
  triple columns (what the empty list selected) raises the \<open>KeyError\<close> of the column.
\<close>

definition attach_id2mof :: "(triple \<rightharpoonup> cell) \<Rightarrow> frame \<Rightarrow> error + frame" where
  "attach_id2mof mof2ids df =
     (case first_missing mof_cols (columns df) of
        Some c \<Rightarrow> Inl (KeyError (ColumnKey c))
      | None \<Rightarrow>
          if rows df = []
          then Inl (ValueError ''Cannot set a DataFrame with multiple columns to the single column id2mof'')
          else (case lookup_rows mof2ids (rows df) of
                  Inl e \<Rightarrow> Inl e
                | Inr rs \<Rightarrow>
                    Inr \<lparr>columns = (if ''id2mof'' \<in> set (columns df) then columns df
                                     else columns df @ [''id2mof'']),
                         rows = rs\<rparr>))"

text \<open>Lines 182 to 187: the rows that pass \<open>valid_mof\<close>, with their canonical id attached.\<close>

definition identity_filter :: "(triple \<rightharpoonup> cell) \<Rightarrow> frame \<Rightarrow> frame" where
  "identity_filter mof2ids df =
     reset_index_drop (select_list (map (\<lambda>p. valid_mof mof2ids (snd p)) (rows df)) df)"

definition identity_stage :: "(triple \<rightharpoonup> cell) \<Rightarrow> frame \<Rightarrow> error + (int \<times> frame)" where
  "identity_stage mof2ids df =
     (case first_missing mof_cols (columns df) of
        Some c \<Rightarrow> Inl (KeyError (ColumnKey c))
      | None \<Rightarrow>
          (let valid_mofs_list = map (\<lambda>p. valid_mof mof2ids (snd p)) (rows df);
               n_remove = int (length (rows df)) - int (length (filter id valid_mofs_list))
           in case attach_id2mof mof2ids (identity_filter mof2ids df) of
                Inl e \<Rightarrow> Inl e
              | Inr df' \<Rightarrow> Inr (n_remove, df')))"

text \<open>
  \<^verbatim>\<open>df[c] < bound\<close>, cell by cell: a missing value is not below any bound, a boolean
  counts as 0 or 1, a string cannot be compared with a number.
\<close>

fun below :: "real \<Rightarrow> cell \<Rightarrow> bool" where
  "below bound (Num x) = (x < bound)"
| "below bound (Bool b) = ((if b then 1 else 0) < bound)"
| "below bound c = False"

definition compare_lt :: "string \<Rightarrow> real \<Rightarrow> frame \<Rightarrow> error + bool list" where
  "compare_lt c bound df =
     (if c \<notin> set (columns df) then Inl (KeyError (ColumnKey c))
      else if list_ex (\<lambda>p. is_str (cell_of c p)) (rows df) then Inl TypeError
      else Inr (map (\<lambda>p. below bound (cell_of c p)) (rows df)))"

text \<open>\<^verbatim>\<open>df[s]\<close> for a boolean series \<open>s\<close> of the frame's length.\<close>

definition select_series :: "bool list \<Rightarrow> frame \<Rightarrow> frame" where
  "select_series bs df = df\<lparr>rows := map snd (filter fst (zip bs (rows df)))\<rparr>"

definition keep_below :: "string \<Rightarrow> real \<Rightarrow> frame \<Rightarrow> error + frame" where
  "keep_below c bound df =
     (case compare_lt c bound df of
        Inl e \<Rightarrow> Inl e
      | Inr bs \<Rightarrow> Inr (select_series bs df))"

text \<open>Lines 194 to 199.\<close>

definition outlier_stage :: "frame \<Rightarrow> error + (int \<times> frame)" where
  "outlier_stage df =
     (case keep_below ''co2n2_selectivity'' 200 df of
        Inl e \<Rightarrow> Inl e
      | Inr df1 \<Rightarrow>
          (case keep_below ''co2ch4_selectivity'' 200 df1 of
             Inl e \<Rightarrow> Inl e
           | Inr df2 \<Rightarrow>
               Inr (int (length (rows df)) - int (length (rows (reset_index_drop df2))),
                    reset_index_drop df2)))"

text \<open>
  The whole function. Its result is the frame; the three removal counts it prints are
  returned with it, in the order printed. The counts are Python integers, differences of
  two lengths.
\<close>

definition get_prop_df ::
  "(nat \<Rightarrow> nat) \<Rightarrow> (cell \<Rightarrow> cell) \<Rightarrow> csv_file \<Rightarrow> string list \<Rightarrow> (triple \<rightharpoonup> cell) \<Rightarrow> bool \<Rightarrow> string
     \<Rightarrow> bool \<Rightarrow> error + (int list \<times> frame)" where
  "get_prop_df rng score f targets mof2ids testing smiles_column compute_scscore =
     (case load_prop rng f testing of
        Inl e \<Rightarrow> Inl e
      | Inr df0 \<Rightarrow>
     (case add_scscore score smiles_column compute_scscore df0 of
        Inl e \<Rightarrow> Inl e
      | Inr df1 \<Rightarrow>
          if \<not> list_all (\<lambda>t. t \<in> set (columns df1)) targets then Inl AssertionError
          else
     (case mask_stage df1 of
        Inl e \<Rightarrow> Inl e
      | Inr (n_mask, df2) \<Rightarrow>
     (case identity_stage mof2ids df2 of
        Inl e \<Rightarrow> Inl e
      | Inr (n_mof, df3) \<Rightarrow>
     (case outlier_stage df3 of
        Inl e \<Rightarrow> Inl e
      | Inr (n_high, df4) \<Rightarrow> Inr ([n_mask, n_mof, n_high], df4))))))"

section \<open>The batched inference pipeline: \<^verbatim>\<open>predict_properties\<close>\<close>

text \<open>
  The model and the trainer are external collaborators. Of the trainer the function uses
  the collate function, which turns a chunk of examples into the input tensors and the
  target tensor; of the model the encoder, the decoder from the latent code to the
  targets, and the inverse transform of the fitted scaler. A two-dimensional array is the
  list of its rows, a row the list of its entries; \<open>inverse_transform\<close> stands for the
  conversion of a tensor to an array followed by the scaler's inverse transform.
\<close>

record ('e, 'x, 'm, 'z, 'y, 'a) collaborators =
  collate_fn :: "'e list \<Rightarrow> 'x \<times> 'm \<times> 'y"
  forward_encoder :: "'x \<Rightarrow> 'm \<Rightarrow> 'z"
  z_to_y :: "'z \<Rightarrow> 'y"
  inverse_transform :: "'y \<Rightarrow> 'a list list"

text \<open>
  Modelled from the spec: the helper \<^verbatim>\<open>utils.chunks\<close> is not among the sources. Section
  4.5 of the specification has the input cut into contiguous chunks of \<open>batch_size\<close>
  examples, the last chunk possibly smaller.
\<close>

function chunks :: "'e list \<Rightarrow> nat \<Rightarrow> 'e list list" where
  "chunks l n = (if n = 0 \<or> l = [] then [] else take n l # chunks (drop n l) n)"
  by pat_completeness auto
termination
  by (relation "measure (\<lambda>(l, n). length l)") auto

declare chunks.simps [simp del]

text \<open>
  \<^verbatim>\<open>np.stack\<close> of a list of rows: it raises on the empty list and on rows of different
  shapes.
\<close>

definition np_stack :: "'a list list \<Rightarrow> error + 'a list list" where
  "np_stack arrays =
     (case arrays of
        [] \<Rightarrow> Inl (ValueError ''need at least one array to stack'')
      | a # as \<Rightarrow>
          if list_all (\<lambda>b. length b = length a) as then Inr arrays
          else Inl (ValueError ''all input arrays must have the same shape''))"

text \<open>The body of the loop of lines 81 to 92, at one chunk.\<close>

definition predict_chunk ::
  "('e, 'x, 'm, 'z, 'y, 'a) collaborators \<Rightarrow> 'e list \<Rightarrow> 'a list list \<times> 'a list list" where
  "predict_chunk c chunk =
     (case collate_fn c chunk of
        (x_tensor, mof_tensor, y_tensor) \<Rightarrow>
          (inverse_transform c (z_to_y c (forward_encoder c x_tensor mof_tensor)),
           inverse_transform c y_tensor))"

fun predict_loop ::
  "('e, 'x, 'm, 'z, 'y, 'a) collaborators \<Rightarrow> 'e list list \<Rightarrow> 'a list list \<times> 'a list list
     \<Rightarrow> 'a list list \<times> 'a list list" where
  "predict_loop c [] acc = acc"
| "predict_loop c (chunk # rest) (y_pred, y_true) =
     predict_loop c rest
       (y_pred @ fst (predict_chunk c chunk), y_true @ snd (predict_chunk c chunk))"

text \<open>
  The number of loops, \<^verbatim>\<open>int(np.ceil(n / batch_size))\<close>, only labels the progress bar;
  its division raises on a batch size of zero.
\<close>

definition predict_properties ::
  "'e list \<Rightarrow> ('e, 'x, 'm, 'z, 'y, 'a) collaborators \<Rightarrow> nat
     \<Rightarrow> error + ('a list list \<times> 'a list list)" where
  "predict_properties data c batch_size =
     (if batch_size = 0 then Inl ZeroDivisionError
      else (case predict_loop c (chunks data batch_size) ([], []) of
              (y_pred, y_true) \<Rightarrow>
                (case np_stack y_pred of
                   Inl e \<Rightarrow> Inl e
                 | Inr p \<Rightarrow>
                     (case np_stack y_true of
                        Inl e \<Rightarrow> Inl e
                      | Inr t \<Rightarrow> Inr (p, t)))))"

section \<open>Example data\<close>

text \<open>
  Concrete files, frames and collaborators on which the functions are run below. A row is
  written as the list of its cells; every other name gives the missing value.
\<close>

definition mk_row :: "(string \<times> cell) list \<Rightarrow> row" where
  "mk_row kvs = (\<lambda>c. case map_of kvs c of Some v \<Rightarrow> v | None \<Rightarrow> NaN)"

text \<open>
  A property file of four records: one that passes every filter, one with a false mask,
  one whose triple is no key of the registry \<open>zn_registry\<close>, and one whose first
  selectivity is exactly 200.0. \<open>prop_result\<close> is the frame \<^verbatim>\<open>get_prop_df\<close> returns
  for it.
\<close>

definition prop_header :: "string list" where
  "prop_header = [''smiles'', ''metal_node'', ''organic_core'', ''topology'', ''mask'',
                  ''co2n2_selectivity'', ''co2ch4_selectivity'']"

definition prop_row :: "string \<Rightarrow> bool \<Rightarrow> real \<Rightarrow> real \<Rightarrow> row" where
  "prop_row metal m a b =
     mk_row [(''smiles'', Str ''CCO''), (''metal_node'', Str metal), (''organic_core'', Str ''bdc''),
             (''topology'', Str ''pcu''), (''mask'', Bool m),
             (''co2n2_selectivity'', Num a), (''co2ch4_selectivity'', Num b)]"

definition masked_row :: "cell \<Rightarrow> string \<Rightarrow> row" where
  "masked_row m metal =
     mk_row [(''smiles'', Str ''CCO''), (''metal_node'', Str metal), (''organic_core'', Str ''bdc''),
             (''topology'', Str ''pcu''), (''mask'', m),
             (''co2n2_selectivity'', Num 10), (''co2ch4_selectivity'', Num 20)]"

definition prop_file :: csv_file where
  "prop_file =
     \<lparr>header = prop_header,
      records = [prop_row ''Zn'' True 10 20, prop_row ''Zn'' False 10 20,
                 prop_row ''Cu'' True 10 20, prop_row ''Zn'' True 200 20]\<rparr>"

definition zn_registry :: "triple \<rightharpoonup> cell" where
  "zn_registry = [(Str ''Zn'', Str ''bdc'', Str ''pcu'') \<mapsto> Num 7]"

definition prop_result :: frame where
  "prop_result =
     \<lparr>columns = prop_header @ [''id2mof''],
      rows = [(0, (prop_row ''Zn'' True 10 20)(''id2mof'' := Num 7))]\<rparr>"

text \<open>
  A property file whose mask column holds the integer 0 in its only record, the frame
  \<^verbatim>\<open>get_prop_df\<close> returns for it, and a file whose only record has a triple that is no
  key of the registry.
\<close>

definition int_mask_file :: csv_file where
  "int_mask_file = \<lparr>header = prop_header, records = [masked_row (Num 0) ''Zn'']\<rparr>"

definition int_mask_result :: frame where
  "int_mask_result =
     \<lparr>columns = prop_header @ [''id2mof''],
      rows = [(0, (masked_row (Num 0) ''Zn'')(''id2mof'' := Num 7))]\<rparr>"

definition cu_file :: csv_file where
  "cu_file = \<lparr>header = prop_header, records = [masked_row (Bool True) ''Cu'']\<rparr>"

text \<open>
  Frames for the outlier stage: one row at the bound itself, and four rows of which the
  second and the third have a value of 200.0 or more.
\<close>

definition boundary_frame :: frame where
  "boundary_frame = read_csv \<lparr>header = prop_header, records = [prop_row ''Zn'' True 200 10]\<rparr>"

definition mixed_frame :: frame where
  "mixed_frame =
     read_csv \<lparr>header = prop_header,
               records = [prop_row ''Zn'' True 10 20, prop_row ''Zn'' True 250 20,
                          prop_row ''Zn'' True 10 200, prop_row ''Zn'' True 199 0]\<rparr>"

definition mixed_result :: frame where
  "mixed_result =
     \<lparr>columns = prop_header,
      rows = [(0, prop_row ''Zn'' True 10 20), (1, prop_row ''Zn'' True 199 0)]\<rparr>"

text \<open>Files for the loader: with the column \<^verbatim>\<open>SMILES\<close>, and without any SMILES column.\<close>

definition smiles_file :: csv_file where
  "smiles_file =
     \<lparr>header = [''SMILES'', ''id2mof''],
      records = [mk_row [(''SMILES'', Str ''CCO''), (''id2mof'', Num 7)]]\<rparr>"

definition plain_file :: csv_file where
  "plain_file =
     \<lparr>header = [''id2mof''],
      records = [mk_row [(''id2mof'', Num 7)]]\<rparr>"





text \<open>A reference table with two ids for two triples, and one where two ids share a triple.\<close>

definition mof_row :: "real \<Rightarrow> string \<Rightarrow> row" where
  "mof_row i metal =
     mk_row [(''id2mof'', Num i), (''metal_node'', Str metal), (''organic_core'', Str ''bdc''),
             (''topology'', Str ''pcu'')]"

definition mof_header :: "string list" where
  "mof_header = [''id2mof'', ''metal_node'', ''organic_core'', ''topology'']"

definition ref_frame :: frame where
  "ref_frame = \<lparr>columns = mof_header, rows = [(0, mof_row 2 ''Zn''), (1, mof_row 1 ''Cu'')]\<rparr>"

definition shared_frame :: frame where
  "shared_frame = \<lparr>columns = mof_header, rows = [(0, mof_row 1 ''Zn''), (1, mof_row 2 ''Zn'')]\<rparr>"

definition zn_triple :: triple where
  "zn_triple = (Str ''Zn'', Str ''bdc'', Str ''pcu'')"

definition cu_triple :: triple where
  "cu_triple = (Str ''Cu'', Str ''bdc'', Str ''pcu'')"

text \<open>
  A toy model for the inference pipeline: an example is a pair of an input and a target
  number, the prediction doubles the input, and every row has one entry.
\<close>

definition toy_model :: "(nat \<times> nat, nat list, unit, nat list, nat list, nat) collaborators" where
  "toy_model =
     \<lparr>collate_fn = (\<lambda>chunk. (map fst chunk, (), map snd chunk)),
      forward_encoder = (\<lambda>x m. x),
      z_to_y = map (\<lambda>v. 2 * v),
      inverse_transform = map (\<lambda>v. [v])\<rparr>"

definition toy_data :: "(nat \<times> nat) list" where
  "toy_data = [(1, 5), (2, 6), (3, 7)]"

section \<open>Properties\<close>

subsection \<open>Lists and frames\<close>

lemma snd_renumber: "map snd (renumber rs) = map snd rs"
  by (simp add: renumber_def)

lemma length_renumber: "length (renumber rs) = length rs"
  by (simp add: renumber_def)

lemma select_by_predicate: "map snd (filter fst (zip (map P xs) xs)) = filter P xs"
  by (induction xs) auto

lemma count_true: "length (filter id (map P xs)) = length (filter P xs)"
  by (induction xs) auto

lemma mem_map_snd: "p \<in> set ps \<Longrightarrow> snd p \<in> set (map snd ps)"
  by simp

lemma below_iff: "below b c \<longleftrightarrow> (\<exists>x. num_of c = Some x \<and> x < b)"
  by (cases c) auto

lemma distinct_map_fresh:
  assumes "distinct (map f (p # ps))" and "q \<in> set ps"
  shows "f q \<noteq> f p"
proof
  assume e: "f q = f p"
  from assms(2) have "f q \<in> f ` set ps" by (rule imageI)
  with e have "f p \<in> f ` set ps" by simp
  with assms(1) show False by simp
qed

lemma keep_first_subset: "set (keep_first k seen xs) \<subseteq> set xs"
  by (induction xs arbitrary: seen) auto

lemma keep_first_keys: "k ` set (keep_first k seen xs) = k ` set xs - set seen"
  by (induction xs arbitrary: seen) auto

lemma keep_first_distinct: "distinct (map k (keep_first k seen xs))"
proof (induction xs arbitrary: seen)
  case Nil
  then show ?case by simp
next
  case (Cons x xs)
  have "k x \<notin> k ` set (keep_first k (k x # seen) xs)"
    unfolding keep_first_keys by simp
  with Cons show ?case by simp
qed


lemma filter_label_single:
  "distinct (map f xs) \<Longrightarrow> x \<in> set xs \<Longrightarrow> filter (\<lambda>y. f y = f x) xs = [x]"
proof (induction xs)
  case Nil
  then show ?case by simp
next
  case (Cons a xs)
  show ?case
  proof (cases "a = x")
    case True
    from Cons.prems have "f a \<notin> f ` set xs" by simp
    then have "\<forall>y \<in> set xs. f y \<noteq> f a" by (metis imageI)
    with True have "\<forall>y \<in> set xs. f y \<noteq> f x" by simp
    then have "filter (\<lambda>y. f y = f x) xs = []" by (simp add: filter_empty_conv)
    with True show ?thesis by simp
  next
    case False
    with Cons.prems have x: "x \<in> set xs" and "f a \<noteq> f x" by auto
    with Cons show ?thesis by simp
  qed
qed

lemma loc_rows_of_sublist:
  assumes "distinct (map fst rs)" and "set sub \<subseteq> set rs"
  shows "concat (map (\<lambda>l. filter (\<lambda>p. fst p = l) rs) (map fst sub)) = sub"
  using assms(2)
proof (induction sub)
  case Nil
  then show ?case by simp
next
  case (Cons p sub)
  then have "filter (\<lambda>q. fst q = fst p) rs = [p]"
    using filter_label_single [OF assms(1), of p] by simp
  with Cons show ?case by simp
qed

lemma loc_first_index:
  assumes "distinct (map fst (rows df))" and "first_index c df = Inr index"
  shows "rows (loc index df) = keep_first (cell_of c) [] (rows df)"
proof -
  from assms(2) have "index = map fst (keep_first (cell_of c) [] (rows df))"
    by (auto simp: first_index_def split: if_splits)
  then show ?thesis
    using loc_rows_of_sublist [OF assms(1) keep_first_subset, of "cell_of c" "[]"]
    by (simp add: loc_def)
qed



lemma cells_update_other:
  "name \<noteq> c \<Longrightarrow> map (cell_of c) (map (\<lambda>(l, r). (l, r(name := g l r))) ps) = map (cell_of c) ps"
  by (induction ps) (auto simp: cell_of_def)




subsection \<open>The data set loader\<close>

text \<open>
  Claim C8. In \<^verbatim>\<open>get_generator_df\<close>, when the requested SMILES column is absent and
  there is a column \<^verbatim>\<open>SMILES\<close>, that column is renamed to the requested name: the
  load step yields the frame whose column list has the new name in the place of
  \<^verbatim>\<open>SMILES\<close> and whose rows have the old value under the new name, the later steps
  of the function run on that frame, and with duplicates kept and no test mode the
  function returns it. When neither name is a column, the load step raises nothing and
  leaves the frame as it was read, every row and every column name: the later steps run
  on the frame as read. When the requested column is present nothing is renamed.
\<close>

theorem load_smiles_rename:
  "(smiles_column \<notin> set (header f) \<and> ''SMILES'' \<in> set (header f) \<longrightarrow>
      load_smiles f smiles_column
        = \<lparr>columns = map (\<lambda>c. if c = ''SMILES'' then smiles_column else c) (header f),
           rows = zip [0..<length (records f)]
                    (map (\<lambda>r. r(smiles_column := r ''SMILES'')) (records f))\<rparr>
      \<and> get_generator_df f smiles_column use_duplicates testing
        = (case dedup_smiles smiles_column use_duplicates
                  \<lparr>columns = map (\<lambda>c. if c = ''SMILES'' then smiles_column else c) (header f),
                   rows = zip [0..<length (records f)]
                            (map (\<lambda>r. r(smiles_column := r ''SMILES'')) (records f))\<rparr> of
             Inl e \<Rightarrow> Inl e
           | Inr df \<Rightarrow> testing_sample testing df)
      \<and> get_generator_df f smiles_column True False
        = Inr \<lparr>columns = map (\<lambda>c. if c = ''SMILES'' then smiles_column else c) (header f),
               rows = zip [0..<length (records f)]
                        (map (\<lambda>r. r(smiles_column := r ''SMILES'')) (records f))\<rparr>)
   \<and> (smiles_column \<notin> set (header f) \<and> ''SMILES'' \<notin> set (header f) \<longrightarrow>
      load_smiles f smiles_column = read_csv f
      \<and> get_generator_df f smiles_column use_duplicates testing
        = (case dedup_smiles smiles_column use_duplicates (read_csv f) of
             Inl e \<Rightarrow> Inl e
           | Inr df \<Rightarrow> testing_sample testing df)
      \<and> get_generator_df f smiles_column True False = Inr (read_csv f))
   \<and> (smiles_column \<in> set (header f) \<longrightarrow>
      load_smiles f smiles_column = read_csv f
      \<and> get_generator_df f smiles_column use_duplicates testing
        = (case dedup_smiles smiles_column use_duplicates (read_csv f) of
             Inl e \<Rightarrow> Inl e
           | Inr df \<Rightarrow> testing_sample testing df)
      \<and> get_generator_df f smiles_column True False = Inr (read_csv f))"
proof -
  let ?renamed = "\<lparr>columns = map (\<lambda>c. if c = ''SMILES'' then smiles_column else c) (header f),
                   rows = zip [0..<length (records f)]
                            (map (\<lambda>r. r(smiles_column := r ''SMILES'')) (records f))\<rparr>"
  have gen: "get_generator_df f smiles_column u t
               = (case dedup_smiles smiles_column u df of
                    Inl e \<Rightarrow> Inl e
                  | Inr df' \<Rightarrow> testing_sample t df')"
    if "load_smiles f smiles_column = df" for u t df
    using that by (simp add: get_generator_df_def)
  have plain: "(case dedup_smiles smiles_column True df of
                  Inl e \<Rightarrow> Inl e
                | Inr df' \<Rightarrow> testing_sample False df') = Inr df" for df
    by (simp add: dedup_smiles_def testing_sample_def)
  have a: "load_smiles f smiles_column = ?renamed"
    if "smiles_column \<notin> set (header f) \<and> ''SMILES'' \<in> set (header f)"
    using that by (simp add: load_smiles_def read_csv_def rename_column_def zip_map2 Let_def)
  have b: "load_smiles f smiles_column = read_csv f"
    if "smiles_column \<notin> set (header f) \<and> ''SMILES'' \<notin> set (header f)"
    using that by (simp add: load_smiles_def read_csv_def rename_column_def Let_def)
  have c: "load_smiles f smiles_column = read_csv f" if "smiles_column \<in> set (header f)"
    using that by (simp add: load_smiles_def read_csv_def Let_def)
  show ?thesis
    using a b c gen [OF a] gen [OF b] gen [OF c] plain
    by (simp del: split_paired_All)
qed

theorem load_smiles_rename_witness:
  "''smiles'' \<notin> set (header smiles_file) \<and> ''SMILES'' \<in> set (header smiles_file)
   \<and> get_generator_df smiles_file ''smiles'' True False
       = Inr \<lparr>columns = [''smiles'', ''id2mof''],
              rows = [(0, (mk_row [(''SMILES'', Str ''CCO''), (''id2mof'', Num 7)])
                            (''smiles'' := Str ''CCO''))]\<rparr>
   \<and> ''smiles'' \<notin> set (header plain_file) \<and> ''SMILES'' \<notin> set (header plain_file)
   \<and> load_smiles plain_file ''smiles'' = read_csv plain_file
   \<and> get_generator_df plain_file ''smiles'' True False = Inr (read_csv plain_file)
   \<and> ''SMILES'' \<in> set (header smiles_file)
   \<and> load_smiles smiles_file ''SMILES'' = read_csv smiles_file
   \<and> get_generator_df smiles_file ''SMILES'' True False = Inr (read_csv smiles_file)"
proof -
  have h1: "''smiles'' \<notin> set (header smiles_file) \<and> ''SMILES'' \<in> set (header smiles_file)"
    by (simp add: smiles_file_def)
  have h2: "''smiles'' \<notin> set (header plain_file) \<and> ''SMILES'' \<notin> set (header plain_file)"
    by (simp add: plain_file_def)
  have h3: "''SMILES'' \<in> set (header smiles_file)"
    by (simp add: smiles_file_def)
  note t1 = load_smiles_rename [of "''smiles''" smiles_file True False]
  note t2 = load_smiles_rename [of "''smiles''" plain_file True False]
  note t3 = load_smiles_rename [of "''SMILES''" smiles_file True False]
  from t1 h1 have "get_generator_df smiles_file ''smiles'' True False
       = Inr \<lparr>columns = map (\<lambda>c. if c = ''SMILES'' then ''smiles'' else c) (header smiles_file),
              rows = zip [0..<length (records smiles_file)]
                       (map (\<lambda>r. r(''smiles'' := r ''SMILES'')) (records smiles_file))\<rparr>"
    by blast
  then have a: "get_generator_df smiles_file ''smiles'' True False
       = Inr \<lparr>columns = [''smiles'', ''id2mof''],
              rows = [(0, (mk_row [(''SMILES'', Str ''CCO''), (''id2mof'', Num 7)])
                            (''smiles'' := Str ''CCO''))]\<rparr>"
    by (simp add: smiles_file_def mk_row_def)
  from t2 h2 have b: "load_smiles plain_file ''smiles'' = read_csv plain_file
      \<and> get_generator_df plain_file ''smiles'' True False = Inr (read_csv plain_file)"
    by blast
  from t3 h3 have c: "load_smiles smiles_file ''SMILES'' = read_csv smiles_file
      \<and> get_generator_df smiles_file ''SMILES'' True False = Inr (read_csv smiles_file)"
    by blast
  from h1 a h2 b h3 c show ?thesis by blast
qed













subsection \<open>The identity registry\<close>

lemma registry_loop_error:
  "registry_loop cols ps reg = Inl e \<Longrightarrow> \<exists>c. e = KeyError (ColumnKey c)"
proof (induction ps arbitrary: reg)
  case Nil
  then show ?case by simp
next
  case (Cons p ps)
  obtain i m where reg: "reg = (i, m)" by (cases reg)
  from Cons show ?case
    unfolding reg by (auto simp: Let_def split: option.splits)
qed

text \<open>
  Claim C6. \<^verbatim>\<open>get_mofdict\<close> raises a \<open>ValueError\<close> exactly when the mode selector
  is none of \<^verbatim>\<open>id\<close>, \<^verbatim>\<open>cats\<close> and \<^verbatim>\<open>all\<close>; with one of the three it may stop
  for another reason (a missing column, an unsortable id column), never with a
  \<open>ValueError\<close>.
\<close>

theorem get_mofdict_value_error:
  "(\<exists>msg. get_mofdict df mof_type = Inl (ValueError msg))
     \<longleftrightarrow> mof_type \<notin> {''id'', ''cats'', ''all''}"
proof
  assume "\<exists>msg. get_mofdict df mof_type = Inl (ValueError msg)"
  then obtain msg where m: "get_mofdict df mof_type = Inl (ValueError msg)" ..
  show "mof_type \<notin> {''id'', ''cats'', ''all''}"
  proof
    assume "mof_type \<in> {''id'', ''cats'', ''all''}"
    then obtain cs where cs: "mode_columns mof_type = Inr cs"
      by (auto simp: mode_columns_def)
    from m show False
      unfolding get_mofdict_def cs
      by (auto simp: first_index_def sort_values_def
               split: sum.splits if_splits dest: registry_loop_error)
  qed
next
  assume "mof_type \<notin> {''id'', ''cats'', ''all''}"
  then have "mode_columns mof_type = Inl (ValueError (mof_type @ '' not understood!''))"
    by (simp add: mode_columns_def)
  then show "\<exists>msg. get_mofdict df mof_type = Inl (ValueError msg)"
    by (simp add: get_mofdict_def)
qed

lemma mset_insert_row: "mset (insert_row c p qs) = add_mset p (mset qs)"
  by (induction qs) auto

lemma mset_sort_rows: "mset (sort_rows c rs) = mset rs"
  by (induction rs) (simp_all add: sort_rows_def mset_insert_row)

lemma sort_rows_distinct:
  "distinct (map k (sort_rows c rs)) \<longleftrightarrow> distinct (map k rs)"
proof -
  have "mset (map k (sort_rows c rs)) = mset (map k rs)"
    by (simp add: mset_sort_rows)
  then show ?thesis by (rule mset_eq_imp_distinct_iff)
qed

lemma registry_loop_triple_dir:
  assumes "registry_loop cols ps (I0, M0) = Inr (I, M)"
    and "distinct (map (cell_of ''id2mof'') ps)"
    and "\<forall>p \<in> set ps. \<forall>t. M0 t \<noteq> Some (cell_of ''id2mof'' p)"
    and "\<forall>t i. M0 t = Some i \<longrightarrow> I0 i = Some t"
  shows "\<forall>t i. M t = Some i \<longrightarrow> I i = Some t"
  using assms
proof (induction ps arbitrary: I0 M0)
  case Nil
  then show ?case by simp
next
  case (Cons p ps)
  let ?i = "cell_of ''id2mof'' p"
  let ?t = "triple_of (snd p)"
  from Cons.prems(1) have run:
    "registry_loop cols ps (I0(?i \<mapsto> ?t), M0(?t \<mapsto> ?i)) = Inr (I, M)"
    by (simp add: Let_def split: option.splits)
  have d: "distinct (map (cell_of ''id2mof'') ps)"
    using Cons.prems(2) by simp
  have fresh: "\<forall>q \<in> set ps. \<forall>t. (M0(?t \<mapsto> ?i)) t \<noteq> Some (cell_of ''id2mof'' q)"
  proof (intro ballI allI)
    fix q t assume q: "q \<in> set ps"
    then have "cell_of ''id2mof'' q \<noteq> ?i"
      using Cons.prems(2) by (rule distinct_map_fresh [rotated])
    moreover have "M0 t \<noteq> Some (cell_of ''id2mof'' q)"
      using Cons.prems(3) q by (simp del: split_paired_All)
    ultimately show "(M0(?t \<mapsto> ?i)) t \<noteq> Some (cell_of ''id2mof'' q)"
      by simp
  qed
  have inv: "\<forall>t i. (M0(?t \<mapsto> ?i)) t = Some i \<longrightarrow> (I0(?i \<mapsto> ?t)) i = Some t"
  proof (intro allI impI)
    fix t i assume m: "(M0(?t \<mapsto> ?i)) t = Some i"
    show "(I0(?i \<mapsto> ?t)) i = Some t"
    proof (cases "t = ?t")
      case True
      with m show ?thesis by simp
    next
      case False
      with m have m0: "M0 t = Some i" by simp
      then have "I0 i = Some t" using Cons.prems(4) by blast
      moreover have "i \<noteq> ?i" using Cons.prems(3) m0 by (auto simp del: split_paired_All)
      ultimately show ?thesis by simp
    qed
  qed
  show ?case
    by (rule Cons.IH [OF run d fresh inv])
qed

lemma registry_loop_id_dir:
  assumes "registry_loop cols ps (I0, M0) = Inr (I, M)"
    and "distinct (map (\<lambda>p. triple_of (snd p)) ps)"
    and "\<forall>p \<in> set ps. \<forall>i. I0 i \<noteq> Some (triple_of (snd p))"
    and "\<forall>i t. I0 i = Some t \<longrightarrow> M0 t = Some i"
  shows "\<forall>i t. I i = Some t \<longrightarrow> M t = Some i"
  using assms
proof (induction ps arbitrary: I0 M0)
  case Nil
  then show ?case by simp
next
  case (Cons p ps)
  let ?i = "cell_of ''id2mof'' p"
  let ?t = "triple_of (snd p)"
  from Cons.prems(1) have run:
    "registry_loop cols ps (I0(?i \<mapsto> ?t), M0(?t \<mapsto> ?i)) = Inr (I, M)"
    by (simp add: Let_def split: option.splits)
  have d: "distinct (map (\<lambda>p. triple_of (snd p)) ps)"
    using Cons.prems(2) by simp
  have fresh: "\<forall>q \<in> set ps. \<forall>i. (I0(?i \<mapsto> ?t)) i \<noteq> Some (triple_of (snd q))"
  proof (intro ballI allI)
    fix q i assume q: "q \<in> set ps"
    then have "triple_of (snd q) \<noteq> ?t"
      using distinct_map_fresh [OF Cons.prems(2)] by simp
    moreover have "I0 i \<noteq> Some (triple_of (snd q))"
      using Cons.prems(3) q by (simp del: split_paired_All)
    ultimately show "(I0(?i \<mapsto> ?t)) i \<noteq> Some (triple_of (snd q))"
      by simp
  qed
  have inv: "\<forall>i t. (I0(?i \<mapsto> ?t)) i = Some t \<longrightarrow> (M0(?t \<mapsto> ?i)) t = Some i"
  proof (intro allI impI)
    fix i t assume m: "(I0(?i \<mapsto> ?t)) i = Some t"
    show "(M0(?t \<mapsto> ?i)) t = Some i"
    proof (cases "i = ?i")
      case True
      with m show ?thesis by simp
    next
      case False
      with m have m0: "I0 i = Some t" by simp
      then have "M0 t = Some i" using Cons.prems(4) by blast
      moreover have "t \<noteq> ?t" using Cons.prems(3) m0 by (auto simp del: split_paired_All)
      ultimately show ?thesis by simp
    qed
  qed
  show ?case
    by (rule Cons.IH [OF run d fresh inv])
qed

text \<open>
  Claim C2, as amended. For a reference frame with distinct index labels on which
  \<^verbatim>\<open>get_mofdict\<close> returns, the round trip from a triple holds at every key:
  \<open>ids2mof[mof2ids[t]] = t\<close> for every key \<open>t\<close> of \<open>mof2ids\<close>. The round trip from
  an id, \<open>mof2ids[ids2mof[i]] = i\<close> for every key \<open>i\<close> of \<open>ids2mof\<close>, holds when
  the first rows of the distinct ids carry distinct triples.
\<close>

theorem get_mofdict_round_trip:
  assumes run: "get_mofdict df mof_type = Inr (ids2mof, mof2ids, mof_columns)"
    and labels: "distinct (map fst (rows df))"
  shows "(\<forall>t \<in> dom mof2ids. \<exists>i. mof2ids t = Some i \<and> ids2mof i = Some t)
         \<and> (distinct (map (\<lambda>p. triple_of (snd p)) (reference_rows df))
              \<longrightarrow> (\<forall>i \<in> dom ids2mof. \<exists>t. ids2mof i = Some t \<and> mof2ids t = Some i))"
proof -
  from run obtain index sub_df where
    i: "first_index ''id2mof'' df = Inr index"
    and s: "sort_values ''id2mof'' (loc index df) = Inr sub_df"
    and l: "registry_loop (columns sub_df) (rows sub_df) (Map.empty, Map.empty)
              = Inr (ids2mof, mof2ids)"
    by (auto simp: get_mofdict_def split: sum.splits prod.splits)
  have k: "rows (loc index df) = reference_rows df"
    unfolding reference_rows_def using labels i by (rule loc_first_index)
  from s have sub: "rows sub_df = sort_rows ''id2mof'' (reference_rows df)"
    by (auto simp: sort_values_def k split: if_splits)
  have ids: "distinct (map (cell_of ''id2mof'') (rows sub_df))"
    unfolding sub sort_rows_distinct reference_rows_def by (rule keep_first_distinct)
  have "\<forall>t i. mof2ids t = Some i \<longrightarrow> ids2mof i = Some t"
    by (rule registry_loop_triple_dir [OF l ids]) simp_all
  then have a: "\<forall>t \<in> dom mof2ids. \<exists>i. mof2ids t = Some i \<and> ids2mof i = Some t"
    by (auto simp del: split_paired_All)
  have b: "\<forall>i \<in> dom ids2mof. \<exists>t. ids2mof i = Some t \<and> mof2ids t = Some i"
    if d: "distinct (map (\<lambda>p. triple_of (snd p)) (reference_rows df))"
  proof -
    from d have "distinct (map (\<lambda>p. triple_of (snd p)) (rows sub_df))"
      unfolding sub sort_rows_distinct .
    then have "\<forall>i t. ids2mof i = Some t \<longrightarrow> mof2ids t = Some i"
      by (rule registry_loop_id_dir [OF l]) simp_all
    then show ?thesis
      by (auto simp del: split_paired_All split_paired_Ex)
  qed
  show ?thesis
  proof (intro conjI impI)
    show "\<forall>t \<in> dom mof2ids. \<exists>i. mof2ids t = Some i \<and> ids2mof i = Some t"
      by (rule a)
    show "\<forall>i \<in> dom ids2mof. \<exists>t. ids2mof i = Some t \<and> mof2ids t = Some i"
      if "distinct (map (\<lambda>p. triple_of (snd p)) (reference_rows df))"
      using that by (rule b)
  qed
qed

lemma mof_row_cells:
  "mof_row i m ''id2mof'' = Num i" "mof_row i m ''metal_node'' = Str m"
  "mof_row i m ''organic_core'' = Str ''bdc''" "mof_row i m ''topology'' = Str ''pcu''"
  by (simp_all add: mof_row_def mk_row_def)

lemma ref_frame_run:
  "get_mofdict ref_frame ''cats''
     = Inr ([Num 1 \<mapsto> cu_triple, Num 2 \<mapsto> zn_triple], [cu_triple \<mapsto> Num 1, zn_triple \<mapsto> Num 2],
            [''metal_node'', ''organic_core'', ''topology''])"
  by (simp add: get_mofdict_def mode_columns_def first_index_def ref_frame_def mof_header_def
        cell_of_def mof_row_cells loc_def sort_values_def sort_rows_def first_missing_def
        mof_cols_def triple_of_def cu_triple_def zn_triple_def Let_def)

lemma shared_frame_run:
  "get_mofdict shared_frame ''id''
     = Inr ([Num 1 \<mapsto> zn_triple, Num 2 \<mapsto> zn_triple], [zn_triple \<mapsto> Num 1, zn_triple \<mapsto> Num 2],
            [''id2mof''])"
  by (simp add: get_mofdict_def mode_columns_def first_index_def shared_frame_def mof_header_def
        cell_of_def mof_row_cells loc_def sort_values_def sort_rows_def first_missing_def
        mof_cols_def triple_of_def zn_triple_def Let_def)

theorem get_mofdict_round_trip_witness:
  "get_mofdict ref_frame ''cats''
     = Inr ([Num 1 \<mapsto> cu_triple, Num 2 \<mapsto> zn_triple], [cu_triple \<mapsto> Num 1, zn_triple \<mapsto> Num 2],
            [''metal_node'', ''organic_core'', ''topology''])
   \<and> distinct (map fst (rows ref_frame))
   \<and> distinct (map (\<lambda>p. triple_of (snd p)) (reference_rows ref_frame))
   \<and> zn_triple \<in> dom [cu_triple \<mapsto> Num 1, zn_triple \<mapsto> Num 2]
   \<and> (\<exists>i. [cu_triple \<mapsto> Num 1, zn_triple \<mapsto> Num 2] zn_triple = Some i
            \<and> [Num 1 \<mapsto> cu_triple, Num 2 \<mapsto> zn_triple] i = Some zn_triple)
   \<and> Num 1 \<in> dom [Num 1 \<mapsto> cu_triple, Num 2 \<mapsto> zn_triple]
   \<and> (\<exists>t. [Num 1 \<mapsto> cu_triple, Num 2 \<mapsto> zn_triple] (Num 1) = Some t
            \<and> [cu_triple \<mapsto> Num 1, zn_triple \<mapsto> Num 2] t = Some (Num 1))"
proof -
  let ?I = "[Num 1 \<mapsto> cu_triple, Num 2 \<mapsto> zn_triple]"
  let ?M = "[cu_triple \<mapsto> Num 1, zn_triple \<mapsto> Num 2]"
  have labels: "distinct (map fst (rows ref_frame))"
    by (simp add: ref_frame_def)
  have triples: "distinct (map (\<lambda>p. triple_of (snd p)) (reference_rows ref_frame))"
    by (simp add: reference_rows_def ref_frame_def cell_of_def mof_row_cells triple_of_def)
  note t = get_mofdict_round_trip [OF ref_frame_run labels]
  have z: "zn_triple \<in> dom ?M" by simp
  have o: "Num 1 \<in> dom ?I" by simp
  from t z have a: "\<exists>i. ?M zn_triple = Some i \<and> ?I i = Some zn_triple"
    by blast
  from t triples o have b: "\<exists>t. ?I (Num 1) = Some t \<and> ?M t = Some (Num 1)"
    by blast
  from ref_frame_run labels triples z a o b show ?thesis
    by (intro conjI)
qed

text \<open>
  The claim as stated, both round trips for every reference frame, fails when two ids
  share a triple: with the ids 1 and 2 on the same triple, \<open>ids2mof\<close> sends both ids
  to the triple, the later row overwrites the entry of \<open>mof2ids\<close>, and the round trip
  from the id 1 ends at the id 2.
\<close>

theorem get_mofdict_shared_triple_counterexample:
  "get_mofdict shared_frame ''id''
     = Inr ([Num 1 \<mapsto> zn_triple, Num 2 \<mapsto> zn_triple], [zn_triple \<mapsto> Num 2], [''id2mof''])
   \<and> [Num 1 \<mapsto> zn_triple, Num 2 \<mapsto> zn_triple] (Num 1) = Some zn_triple
   \<and> [zn_triple \<mapsto> Num 2] zn_triple = Some (Num 2)
   \<and> Num 2 \<noteq> Num 1"
proof -
  have "get_mofdict shared_frame ''id''
     = Inr ([Num 1 \<mapsto> zn_triple, Num 2 \<mapsto> zn_triple], [zn_triple \<mapsto> Num 2], [''id2mof''])"
    using shared_frame_run by simp
  then show ?thesis by simp
qed

subsection \<open>The validation and filter pipeline\<close>

lemma query_mask_rows:
  "query_mask df = Inr q \<Longrightarrow> list_all (\<lambda>p. is_bool (cell_of ''mask'' p)) (rows df) \<Longrightarrow>
     rows q = filter (\<lambda>p. cell_of ''mask'' p = Bool True) (rows df)"
  by (auto simp: query_mask_def split: if_splits)

lemma mask_labels_error: "mask_labels index cs = Inl e \<Longrightarrow> \<exists>c. e = KeyError (LabelKey c)"
  by (induction cs arbitrary: e) (auto split: option.splits if_splits sum.splits)

lemma mask_stage_count:
  "mask_stage df = Inr (n, out) \<Longrightarrow> n = int (length (rows df)) - int (length (rows out))"
  by (auto simp: mask_stage_def reset_index_drop_def length_renumber split: sum.splits)

lemma mask_stage_rows:
  assumes "mask_stage df = Inr (n, out)"
    and "list_all (\<lambda>p. is_bool (cell_of ''mask'' p)) (rows df)"
  shows "map snd (rows out) = map snd (filter (\<lambda>p. cell_of ''mask'' p = Bool True) (rows df))"
proof -
  from assms(1) obtain q where q: "query_mask df = Inr q" and out: "out = reset_index_drop q"
    by (auto simp: mask_stage_def split: sum.splits)
  have "rows q = filter (\<lambda>p. cell_of ''mask'' p = Bool True) (rows df)"
    using q assms(2) by (rule query_mask_rows)
  then show ?thesis
    unfolding out by (simp add: reset_index_drop_def snd_renumber)
qed

lemma lookup_rows_total:
  "\<forall>p \<in> set ps. mof2ids (triple_of (snd p)) \<noteq> None \<Longrightarrow>
     lookup_rows mof2ids ps
       = Inr (map (\<lambda>p. (fst p, (snd p)(''id2mof'' := the (mof2ids (triple_of (snd p)))))) ps)"
  by (induction ps) auto

lemma identity_filter_rows:
  "map snd (rows (identity_filter mof2ids df))
     = filter (valid_mof mof2ids) (map snd (rows df))"
proof -
  have "map snd (map snd (filter fst (zip (map (\<lambda>p. valid_mof mof2ids (snd p)) (rows df)) (rows df))))
          = filter (valid_mof mof2ids) (map snd (rows df))"
    by (simp add: select_by_predicate filter_map comp_def)
  then show ?thesis
    by (simp add: identity_filter_def reset_index_drop_def select_list_def snd_renumber)
qed

lemma identity_filter_valid:
  "p \<in> set (rows (identity_filter mof2ids df)) \<Longrightarrow> mof2ids (triple_of (snd p)) \<noteq> None"
proof -
  assume "p \<in> set (rows (identity_filter mof2ids df))"
  then have "snd p \<in> set (map snd (rows (identity_filter mof2ids df)))"
    by (simp del: identity_filter_rows)
  then show ?thesis
    unfolding identity_filter_rows by (simp add: valid_mof_def)
qed

lemma identity_stage_rows:
  assumes "identity_stage mof2ids df = Inr (n, out)"
  shows "map snd (rows out)
           = map (\<lambda>r. r(''id2mof'' := the (mof2ids (triple_of r))))
               (filter (valid_mof mof2ids) (map snd (rows df)))"
    and "n = int (length (rows df)) - int (length (rows out))"
proof -
  let ?f = "identity_filter mof2ids df"
  have tot: "lookup_rows mof2ids (rows ?f)
       = Inr (map (\<lambda>p. (fst p, (snd p)(''id2mof'' := the (mof2ids (triple_of (snd p)))))) (rows ?f))"
    by (rule lookup_rows_total) (simp add: identity_filter_valid)
  from assms have out:
    "rows out = map (\<lambda>p. (fst p, (snd p)(''id2mof'' := the (mof2ids (triple_of (snd p)))))) (rows ?f)"
    by (auto simp: identity_stage_def attach_id2mof_def tot Let_def
             split: option.splits if_splits)
  have "map snd (rows out)
          = map (\<lambda>r. r(''id2mof'' := the (mof2ids (triple_of r)))) (map snd (rows ?f))"
    unfolding out by (simp add: comp_def)
  then show "map snd (rows out)
           = map (\<lambda>r. r(''id2mof'' := the (mof2ids (triple_of r))))
               (filter (valid_mof mof2ids) (map snd (rows df)))"
    by (simp only: identity_filter_rows)
  have "length (rows out) = length (map snd (rows ?f))"
    unfolding out by simp
  also have "\<dots> = length (filter (\<lambda>p. valid_mof mof2ids (snd p)) (rows df))"
    unfolding identity_filter_rows by (simp add: filter_map comp_def)
  finally have len: "length (rows out) = length (filter (\<lambda>p. valid_mof mof2ids (snd p)) (rows df))" .
  from assms show "n = int (length (rows df)) - int (length (rows out))"
    unfolding len
    by (auto simp: identity_stage_def Let_def count_true split: option.splits sum.splits)
qed

lemma keep_below_rows:
  "keep_below c b df = Inr out \<Longrightarrow>
     rows out = filter (\<lambda>p. below b (cell_of c p)) (rows df) \<and> columns out = columns df"
  by (auto simp: keep_below_def compare_lt_def select_series_def select_by_predicate
           split: sum.splits if_splits)

lemma outlier_stage_rows:
  assumes "outlier_stage df = Inr (n, out)"
  shows "map snd (rows out)
           = map snd (filter (\<lambda>p. below 200 (cell_of ''co2n2_selectivity'' p)
                                 \<and> below 200 (cell_of ''co2ch4_selectivity'' p)) (rows df))"
    and "n = int (length (rows df)) - int (length (rows out))"
  using assms
  by (auto simp: outlier_stage_def reset_index_drop_def snd_renumber length_renumber
           split: sum.splits dest!: keep_below_rows)

lemma add_scscore_length:
  "add_scscore score c b df = Inr df' \<Longrightarrow> length (rows df') = length (rows df)"
  by (auto simp: add_scscore_def set_column_def split: if_splits)

text \<open>In test mode the frame as loaded has the 1000 rows of the sample.\<close>

lemma sample_rows_length:
  "n \<le> length xs \<Longrightarrow> length (sample_rows rng k n xs) = n"
proof (induction n arbitrary: k xs)
  case 0
  then show ?case by simp
next
  case (Suc n)
  then obtain y ys where xs: "xs = y # ys" by (cases xs) auto
  let ?i = "rng k mod length (y # ys)"
  have i: "?i < length (y # ys)" by simp
  have "length (take ?i (y # ys) @ drop (Suc ?i) (y # ys)) = length ys"
    using i by (simp del: take_Cons' drop_Suc_Cons)
  with Suc.prems xs have "n \<le> length (take ?i (y # ys) @ drop (Suc ?i) (y # ys))"
    by simp
  then have "length (sample_rows rng (Suc k) n (take ?i (y # ys) @ drop (Suc ?i) (y # ys))) = n"
    by (rule Suc.IH)
  then show ?case
    unfolding xs by (simp add: Let_def del: take_Cons' drop_Suc_Cons)
qed

lemma sample_length: "sample rng n df = Inr s \<Longrightarrow> length (rows s) = n"
  by (auto simp: sample_def sample_rows_length split: if_splits)

lemma load_prop_testing_length:
  "load_prop rng f True = Inr df0 \<Longrightarrow> length (rows df0) = 1000"
  by (auto simp: load_prop_def reset_index_drop_def length_renumber Let_def
           split: sum.splits dest: sample_length)

lemma triple_of_id2mof: "triple_of (r(''id2mof'' := v)) = triple_of r"
  by (simp add: triple_of_def)

lemma prop_file_run:
  "get_prop_df (\<lambda>k. 0) (\<lambda>c. NaN) prop_file [''co2n2_selectivity''] zn_registry False ''smiles'' False
     = Inr ([1, 1, 1],
            \<lparr>columns = prop_header @ [''id2mof''],
             rows = [(0, (prop_row ''Zn'' True 10 20)(''id2mof'' := Num 7))]\<rparr>)"
  by (simp add: get_prop_df_def load_prop_def read_csv_def add_scscore_def prop_file_def
        prop_header_def mask_stage_def query_mask_def cell_of_def prop_row_def mk_row_def Let_def
        reset_index_drop_def renumber_def identity_stage_def first_missing_def mof_cols_def
        identity_filter_def select_list_def valid_mof_def triple_of_def zn_registry_def
        attach_id2mof_def outlier_stage_def keep_below_def compare_lt_def select_series_def
        upt_rec [of 0] upt_rec [of 1] upt_rec [of 2] upt_rec [of 3])

lemma sample_rows_subset: "set (sample_rows rng k n xs) \<subseteq> set xs"
proof (induction n arbitrary: k xs)
  case 0
  then show ?case by simp
next
  case (Suc n)
  show ?case
  proof (cases xs)
    case Nil
    then show ?thesis by simp
  next
    case (Cons y ys)
    let ?i = "rng k mod length (y # ys)"
    let ?rest = "take ?i (y # ys) @ drop (Suc ?i) (y # ys)"
    have "?i < length (y # ys)" by simp
    then have a: "(y # ys) ! ?i \<in> set (y # ys)" by (rule nth_mem)
    have "set ?rest \<subseteq> set (y # ys)"
      using set_take_subset [of ?i "y # ys"] set_drop_subset [of "Suc ?i" "y # ys"]
      by (simp only: set_append) blast
    with Suc.IH [of "Suc k" ?rest] have b: "set (sample_rows rng (Suc k) n ?rest) \<subseteq> set (y # ys)"
      by blast
    have "sample_rows rng k (Suc n) (y # ys) = (y # ys) ! ?i # sample_rows rng (Suc k) n ?rest"
      by (simp add: Let_def del: take_Cons' drop_Suc_Cons)
    with a b show ?thesis
      unfolding Cons by (simp only: set_simps) blast
  qed
qed

lemma load_prop_bodies:
  assumes "load_prop rng f testing = Inr df0"
  shows "set (map snd (rows df0)) \<subseteq> set (records f)"
proof -
  have r: "set (map snd (rows (read_csv f))) \<subseteq> set (records f)"
    by (simp add: read_csv_def map_snd_zip)
  show ?thesis
  proof (cases testing)
    case False
    with assms r show ?thesis by (simp add: load_prop_def)
  next
    case True
    with assms obtain s where s: "sample rng 1000 (read_csv f) = Inr s"
      and d: "df0 = reset_index_drop s"
      by (auto simp: load_prop_def Let_def split: sum.splits)
    from s have "rows s = sample_rows rng 0 1000 (rows (read_csv f))"
      by (auto simp: sample_def split: if_splits)
    then have "set (rows s) \<subseteq> set (rows (read_csv f))"
      by (simp add: sample_rows_subset)
    then have "set (map snd (rows s)) \<subseteq> set (map snd (rows (read_csv f)))"
      by auto
    with r show ?thesis
      unfolding d by (simp add: reset_index_drop_def snd_renumber del: set_map)
  qed
qed

lemma add_scscore_mask:
  assumes "add_scscore score c b df = Inr df'"
  shows "map (cell_of ''mask'') (rows df') = map (cell_of ''mask'') (rows df)"
proof (cases b)
  case False
  with assms show ?thesis by (simp add: add_scscore_def)
next
  case True
  with assms have "rows df' = map (\<lambda>(l, r). (l, r(''scscore'' := score (r c)))) (rows df)"
    by (auto simp: add_scscore_def set_column_def split: if_splits)
  moreover have "''scscore'' \<noteq> ''mask''" by simp
  ultimately show ?thesis
    using cells_update_other [of "''scscore''" "''mask''" "\<lambda>l r. score (r c)" "rows df"]
    by simp
qed

lemma boolean_mask_loaded:
  assumes load: "load_prop rng f testing = Inr df0"
    and sc: "add_scscore score c b df0 = Inr df1"
    and bool: "\<forall>r \<in> set (records f). is_bool (r ''mask'')"
  shows "list_all (\<lambda>p. is_bool (cell_of ''mask'' p)) (rows df1)"
proof -
  have "is_bool (cell_of ''mask'' p)" if "p \<in> set (rows df0)" for p
  proof -
    from that have "snd p \<in> set (map snd (rows df0))" by simp
    with load_prop_bodies [OF load] have "snd p \<in> set (records f)" by blast
    with bool show ?thesis by (simp add: cell_of_def)
  qed
  then have "list_all is_bool (map (cell_of ''mask'') (rows df0))"
    by (simp add: list_all_iff)
  then have "list_all is_bool (map (cell_of ''mask'') (rows df1))"
    unfolding add_scscore_mask [OF sc] .
  then show ?thesis
    by (simp add: list_all_iff)
qed

text \<open>
  Claim C1, as amended. Whatever the file, the registry and the other arguments: when
  \<^verbatim>\<open>get_prop_df\<close> returns a frame, every row of it has a triple
  \<open>(metal_node, organic_core, topology)\<close> that is a key of \<open>mof2ids\<close> and a value
  strictly below 200.0 in both selectivity columns; and when the mask column of the file
  holds booleans only, every row of it has a true mask.
\<close>

theorem get_prop_df_postconditions:
  assumes run: "get_prop_df rng score f targets mof2ids testing smiles_column compute_scscore
                = Inr (counts, out)"
  shows "(\<forall>p \<in> set (rows out).
            triple_of (snd p) \<in> dom mof2ids
            \<and> (\<exists>x. num_of (cell_of ''co2n2_selectivity'' p) = Some x \<and> x < 200)
            \<and> (\<exists>y. num_of (cell_of ''co2ch4_selectivity'' p) = Some y \<and> y < 200))
         \<and> ((\<forall>r \<in> set (records f). is_bool (r ''mask''))
              \<longrightarrow> (\<forall>p \<in> set (rows out). cell_of ''mask'' p = Bool True))"
proof -
  from run obtain df0 df1 n1 df2 n2 df3 n3 where
    load: "load_prop rng f testing = Inr df0"
    and sc: "add_scscore score smiles_column compute_scscore df0 = Inr df1"
    and m: "mask_stage df1 = Inr (n1, df2)"
    and i: "identity_stage mof2ids df2 = Inr (n2, df3)"
    and h: "outlier_stage df3 = Inr (n3, out)"
    by (auto simp: get_prop_df_def split: sum.splits if_splits prod.splits)
  have origin: "\<exists>r. r \<in> set (map snd (rows df2)) \<and> valid_mof mof2ids r
                  \<and> snd p = r(''id2mof'' := the (mof2ids (triple_of r)))
                  \<and> below 200 (cell_of ''co2n2_selectivity'' p)
                  \<and> below 200 (cell_of ''co2ch4_selectivity'' p)"
    if p: "p \<in> set (rows out)" for p
  proof -
    from p have "snd p \<in> set (map snd (rows out))" by simp
    then obtain q where q: "q \<in> set (rows df3)" "snd q = snd p"
      and b1: "below 200 (cell_of ''co2n2_selectivity'' q)"
      and b2: "below 200 (cell_of ''co2ch4_selectivity'' q)"
      unfolding outlier_stage_rows(1) [OF h] by auto
    from q(1) have "snd q \<in> set (map snd (rows df3))" by simp
    then obtain r where r: "r \<in> set (map snd (rows df2))" "valid_mof mof2ids r"
      and qr: "snd q = r(''id2mof'' := the (mof2ids (triple_of r)))"
      unfolding identity_stage_rows(1) [OF i] by auto
    from b1 b2 q(2) have "below 200 (cell_of ''co2n2_selectivity'' p)"
      "below 200 (cell_of ''co2ch4_selectivity'' p)"
      by (simp_all add: cell_of_def)
    with r qr q(2) show ?thesis by auto
  qed
  have a: "triple_of (snd p) \<in> dom mof2ids
           \<and> (\<exists>x. num_of (cell_of ''co2n2_selectivity'' p) = Some x \<and> x < 200)
           \<and> (\<exists>y. num_of (cell_of ''co2ch4_selectivity'' p) = Some y \<and> y < 200)"
    if p: "p \<in> set (rows out)" for p
  proof -
    from origin [OF p] obtain r where r: "valid_mof mof2ids r"
      and pr: "snd p = r(''id2mof'' := the (mof2ids (triple_of r)))"
      and b1: "below 200 (cell_of ''co2n2_selectivity'' p)"
      and b2: "below 200 (cell_of ''co2ch4_selectivity'' p)"
      by blast
    have "triple_of (snd p) \<in> dom mof2ids"
      using r unfolding pr triple_of_id2mof by (auto simp: valid_mof_def)
    with b1 b2 show ?thesis by (simp add: below_iff)
  qed
  have b: "cell_of ''mask'' p = Bool True"
    if bool: "\<forall>r \<in> set (records f). is_bool (r ''mask'')" and p: "p \<in> set (rows out)" for p
  proof -
    from origin [OF p] obtain r where r: "r \<in> set (map snd (rows df2))"
      and pr: "snd p = r(''id2mof'' := the (mof2ids (triple_of r)))"
      by blast
    have bm: "list_all (\<lambda>p. is_bool (cell_of ''mask'' p)) (rows df1)"
      using load sc bool by (rule boolean_mask_loaded)
    from r obtain s where "snd s = r" and "cell_of ''mask'' s = Bool True"
      unfolding mask_stage_rows [OF m bm] by auto
    then show ?thesis
      by (simp add: cell_of_def pr)
  qed
  have all: "\<forall>p \<in> set (rows out).
            triple_of (snd p) \<in> dom mof2ids
            \<and> (\<exists>x. num_of (cell_of ''co2n2_selectivity'' p) = Some x \<and> x < 200)
            \<and> (\<exists>y. num_of (cell_of ''co2ch4_selectivity'' p) = Some y \<and> y < 200)"
  proof
    fix p assume "p \<in> set (rows out)"
    then show "triple_of (snd p) \<in> dom mof2ids
           \<and> (\<exists>x. num_of (cell_of ''co2n2_selectivity'' p) = Some x \<and> x < 200)
           \<and> (\<exists>y. num_of (cell_of ''co2ch4_selectivity'' p) = Some y \<and> y < 200)"
      by (rule a)
  qed
  have masks: "(\<forall>r \<in> set (records f). is_bool (r ''mask''))
              \<longrightarrow> (\<forall>p \<in> set (rows out). cell_of ''mask'' p = Bool True)"
  proof (intro impI ballI)
    fix p assume "\<forall>r \<in> set (records f). is_bool (r ''mask'')" and "p \<in> set (rows out)"
    then show "cell_of ''mask'' p = Bool True" by (rule b)
  qed
  from all masks show ?thesis by (rule conjI)
qed

theorem get_prop_df_postconditions_witness:
  "get_prop_df (\<lambda>k. 0) (\<lambda>c. NaN) prop_file [''co2n2_selectivity''] zn_registry False ''smiles''
       False = Inr ([1, 1, 1], prop_result)
   \<and> map (\<lambda>r. r ''mask'') (records prop_file) = [Bool True, Bool False, Bool True, Bool True]
   \<and> rows prop_result = [(0, (prop_row ''Zn'' True 10 20)(''id2mof'' := Num 7))]
   \<and> triple_of ((prop_row ''Zn'' True 10 20)(''id2mof'' := Num 7)) \<in> dom zn_registry
   \<and> cell_of ''mask'' (0, (prop_row ''Zn'' True 10 20)(''id2mof'' := Num 7)) = Bool True
   \<and> num_of (cell_of ''co2n2_selectivity'' (0, (prop_row ''Zn'' True 10 20)(''id2mof'' := Num 7)))
       = Some 10
   \<and> num_of (cell_of ''co2ch4_selectivity'' (0, (prop_row ''Zn'' True 10 20)(''id2mof'' := Num 7)))
       = Some 20"
proof -
  have run: "get_prop_df (\<lambda>k. 0) (\<lambda>c. NaN) prop_file [''co2n2_selectivity''] zn_registry False
               ''smiles'' False = Inr ([1, 1, 1], prop_result)"
    by (simp add: prop_file_run prop_result_def)
  have r: "rows prop_result = [(0, (prop_row ''Zn'' True 10 20)(''id2mof'' := Num 7))]"
    by (simp add: prop_result_def)
  have m: "map (\<lambda>r. r ''mask'') (records prop_file) = [Bool True, Bool False, Bool True, Bool True]"
    by (simp add: prop_file_def prop_row_def mk_row_def)
  have "list_all is_bool (map (\<lambda>r. r ''mask'') (records prop_file))"
    unfolding m by simp
  then have bool: "\<forall>r \<in> set (records prop_file). is_bool (r ''mask'')"
    by (simp add: list_all_iff)
  note t = get_prop_df_postconditions [OF run]
  from t have "\<forall>p \<in> set (rows prop_result). triple_of (snd p) \<in> dom zn_registry"
    by blast
  then have a: "triple_of ((prop_row ''Zn'' True 10 20)(''id2mof'' := Num 7)) \<in> dom zn_registry"
    unfolding r by simp
  from t bool have "\<forall>p \<in> set (rows prop_result). cell_of ''mask'' p = Bool True"
    by blast
  then have b: "cell_of ''mask'' (0, (prop_row ''Zn'' True 10 20)(''id2mof'' := Num 7)) = Bool True"
    unfolding r by simp
  have c: "num_of (cell_of ''co2n2_selectivity'' (0, (prop_row ''Zn'' True 10 20)(''id2mof'' := Num 7)))
       = Some 10"
    by (simp add: cell_of_def prop_row_def mk_row_def)
  have d: "num_of (cell_of ''co2ch4_selectivity'' (0, (prop_row ''Zn'' True 10 20)(''id2mof'' := Num 7)))
       = Some 20"
    by (simp add: cell_of_def prop_row_def mk_row_def)
  from run m r a b c d show ?thesis by (intro conjI)
qed

lemma masked_row_cells:
  "masked_row m metal ''mask'' = m" "masked_row m metal ''metal_node'' = Str metal"
  "masked_row m metal ''organic_core'' = Str ''bdc''" "masked_row m metal ''topology'' = Str ''pcu''"
  "masked_row m metal ''co2n2_selectivity'' = Num 10"
  "masked_row m metal ''co2ch4_selectivity'' = Num 20"
  by (simp_all add: masked_row_def mk_row_def)

text \<open>
  The claim as stated, a true mask in every row for every input file, fails on a mask
  column of integers: the only record of the file has the mask 0, the query of line 180
  takes the column as the list of labels \<open>[0]\<close> and selects the row labelled 0, the
  record itself, and the frame returned holds it with its mask 0 and the removal counts
  0, 0, 0.
\<close>

theorem get_prop_df_int_mask_counterexample:
  "map (\<lambda>r. r ''mask'') (records int_mask_file) = [Num 0]
   \<and> get_prop_df (\<lambda>k. 0) (\<lambda>c. NaN) int_mask_file [] zn_registry False ''smiles'' False
       = Inr ([0, 0, 0], int_mask_result)
   \<and> map (cell_of ''mask'') (rows int_mask_result) = [Num 0]
   \<and> Num 0 \<noteq> Bool True"
proof -
  have a: "map (\<lambda>r. r ''mask'') (records int_mask_file) = [Num 0]"
    by (simp add: int_mask_file_def masked_row_cells)
  have q: "query_mask (read_csv int_mask_file) = Inr (read_csv int_mask_file)"
    by (simp add: query_mask_def read_csv_def int_mask_file_def prop_header_def cell_of_def
          masked_row_cells loc_def)
  have b: "get_prop_df (\<lambda>k. 0) (\<lambda>c. NaN) int_mask_file [] zn_registry False ''smiles'' False
       = Inr ([0, 0, 0], int_mask_result)"
    by (simp add: get_prop_df_def load_prop_def add_scscore_def mask_stage_def q)
       (simp add: read_csv_def int_mask_file_def int_mask_result_def
          prop_header_def cell_of_def masked_row_cells
          reset_index_drop_def renumber_def identity_stage_def first_missing_def mof_cols_def
          identity_filter_def select_list_def valid_mof_def triple_of_def zn_registry_def
          attach_id2mof_def outlier_stage_def keep_below_def compare_lt_def select_series_def)
  have c: "map (cell_of ''mask'') (rows int_mask_result) = [Num 0]"
    by (simp add: int_mask_result_def cell_of_def masked_row_cells)
  from a b c show ?thesis by simp
qed

text \<open>
  Claim C3. In every run of \<^verbatim>\<open>get_prop_df\<close> that returns, three removal counts are
  reported (mask, identity, outliers), and their sum plus the number of rows returned is
  the number of rows of the frame as loaded, that is after the sample of the test mode.
\<close>

theorem get_prop_df_ledger:
  assumes load: "load_prop rng f testing = Inr df0"
    and run: "get_prop_df rng score f targets mof2ids testing smiles_column compute_scscore
                = Inr (counts, out)"
  shows "length counts = 3
         \<and> sum_list counts + int (length (rows out)) = int (length (rows df0))"
proof -
  from run load obtain df1 n1 df2 n2 df3 n3 where
    sc: "add_scscore score smiles_column compute_scscore df0 = Inr df1"
    and m: "mask_stage df1 = Inr (n1, df2)"
    and i: "identity_stage mof2ids df2 = Inr (n2, df3)"
    and h: "outlier_stage df3 = Inr (n3, out)"
    and c: "counts = [n1, n2, n3]"
    by (auto simp: get_prop_df_def split: sum.splits if_splits prod.splits)
  have l1: "length (rows df1) = length (rows df0)"
    using sc by (rule add_scscore_length)
  have e1: "n1 = int (length (rows df1)) - int (length (rows df2))"
    using m by (rule mask_stage_count)
  have e2: "n2 = int (length (rows df2)) - int (length (rows df3))"
    using i by (rule identity_stage_rows(2))
  have e3: "n3 = int (length (rows df3)) - int (length (rows out))"
    using h by (rule outlier_stage_rows(2))
  show ?thesis
    unfolding c e1 e2 e3 l1 by simp
qed

theorem get_prop_df_ledger_witness:
  "load_prop (\<lambda>k. 0) prop_file False = Inr (read_csv prop_file)
   \<and> get_prop_df (\<lambda>k. 0) (\<lambda>c. NaN) prop_file [''co2n2_selectivity''] zn_registry False ''smiles''
       False = Inr ([1, 1, 1], prop_result)
   \<and> length (rows (read_csv prop_file)) = 4
   \<and> length (rows prop_result) = 1
   \<and> sum_list [1, 1, 1] + int (length (rows prop_result))
       = int (length (rows (read_csv prop_file)))"
proof -
  have load: "load_prop (\<lambda>k. 0) prop_file False = Inr (read_csv prop_file)"
    by (simp add: load_prop_def)
  have run: "get_prop_df (\<lambda>k. 0) (\<lambda>c. NaN) prop_file [''co2n2_selectivity''] zn_registry False
               ''smiles'' False = Inr ([1, 1, 1], prop_result)"
    by (simp add: prop_file_run prop_result_def)
  have n: "length (rows (read_csv prop_file)) = 4"
    by (simp add: read_csv_def prop_file_def)
  have m: "length (rows prop_result) = 1"
    by (simp add: prop_result_def)
  from get_prop_df_ledger [OF load run] load run n m show ?thesis
    by simp
qed

lemma lookup_rows_error:
  "lookup_rows mof2ids ps = Inl e \<Longrightarrow> \<exists>p \<in> set ps. mof2ids (triple_of (snd p)) = None"
  by (induction ps arbitrary: e) (auto split: option.splits sum.splits)

lemma lookup_rows_filtered:
  "lookup_rows mof2ids (rows (identity_filter mof2ids df)) \<noteq> Inl e"
  using lookup_rows_error identity_filter_valid by blast

lemma attach_id2mof_error:
  "attach_id2mof mof2ids (identity_filter mof2ids df) \<noteq> Inl (KeyError (TripleKey t))"
  using lookup_rows_filtered [of mof2ids df]
  by (simp add: attach_id2mof_def split: option.splits sum.splits)

lemma identity_stage_error:
  "identity_stage mof2ids df \<noteq> Inl (KeyError (TripleKey t))"
  using attach_id2mof_error [of mof2ids df t]
  by (auto simp: identity_stage_def Let_def split: option.splits sum.splits)

lemma load_prop_error: "load_prop rng f testing \<noteq> Inl (KeyError (TripleKey t))"
  by (simp add: load_prop_def sample_def Let_def)

lemma add_scscore_error: "add_scscore score c b df \<noteq> Inl (KeyError (TripleKey t))"
  by (simp add: add_scscore_def)

lemma mask_stage_error: "mask_stage df \<noteq> Inl (KeyError (TripleKey t))"
proof -
  have "mask_labels index cs \<noteq> Inl (KeyError (TripleKey t))" for index cs
    using mask_labels_error [of index cs] by auto
  then have "query_mask df \<noteq> Inl (KeyError (TripleKey t))"
    by (auto simp: query_mask_def split: sum.splits)
  then show ?thesis
    by (auto simp: mask_stage_def split: sum.splits)
qed

lemma keep_below_error: "keep_below c b df \<noteq> Inl (KeyError (TripleKey t))"
  by (simp add: keep_below_def compare_lt_def)

lemma outlier_stage_error: "outlier_stage df \<noteq> Inl (KeyError (TripleKey t))"
  using keep_below_error [of _ _ _ t]
  by (auto simp: outlier_stage_def split: sum.splits)

text \<open>
  Claim C9, as amended. The lookup \<^verbatim>\<open>mof2ids[tuple(x)]\<close> of line 186 runs over the
  rows left by the identity filter only; each of these rows has a triple that is a key of
  \<open>mof2ids\<close>, and neither the identity stage nor \<^verbatim>\<open>get_prop_df\<close> as a whole ever
  raises the \<open>KeyError\<close> of a triple that is no key. When the three triple columns exist
  and at least one row is left by the filter, the attachment succeeds: the stage returns
  the filtered frame with the canonical id of its triple in the column \<^verbatim>\<open>id2mof\<close> of
  every row.
\<close>

theorem id2mof_attachment_total:
  "(\<forall>p \<in> set (rows (identity_filter mof2ids df)). triple_of (snd p) \<in> dom mof2ids)
   \<and> identity_stage mof2ids df \<noteq> Inl (KeyError (TripleKey t))
   \<and> get_prop_df rng score f targets mof2ids testing smiles_column compute_scscore
       \<noteq> Inl (KeyError (TripleKey t))
   \<and> (first_missing mof_cols (columns df) = None \<and> rows (identity_filter mof2ids df) \<noteq> []
        \<longrightarrow> identity_stage mof2ids df
              = Inr (int (length (rows df)) - int (length (rows (identity_filter mof2ids df))),
                     \<lparr>columns = (if ''id2mof'' \<in> set (columns df) then columns df
                                 else columns df @ [''id2mof'']),
                      rows = map (\<lambda>p. (fst p, (snd p)(''id2mof'' := the (mof2ids (triple_of (snd p))))))
                               (rows (identity_filter mof2ids df))\<rparr>))"
proof -
  let ?f = "identity_filter mof2ids df"
  let ?out = "\<lparr>columns = (if ''id2mof'' \<in> set (columns df) then columns df
                            else columns df @ [''id2mof'']),
                 rows = map (\<lambda>p. (fst p, (snd p)(''id2mof'' := the (mof2ids (triple_of (snd p))))))
                          (rows ?f)\<rparr>"
  have v: "\<forall>p \<in> set (rows ?f). mof2ids (triple_of (snd p)) \<noteq> None"
    by (simp add: identity_filter_valid)
  have a: "\<forall>p \<in> set (rows ?f). triple_of (snd p) \<in> dom mof2ids"
    using v by (auto simp: dom_def)
  have c: "identity_stage mof2ids df \<noteq> Inl (KeyError (TripleKey t))"
    by (rule identity_stage_error)
  have d: "get_prop_df rng score f targets mof2ids testing smiles_column compute_scscore
       \<noteq> Inl (KeyError (TripleKey t))"
    using load_prop_error [of rng f testing t] add_scscore_error [of score smiles_column compute_scscore _ t]
      mask_stage_error [of _ t] identity_stage_error [of mof2ids _ t] outlier_stage_error [of _ t]
    by (auto simp: get_prop_df_def split: sum.splits)
  have e: "identity_stage mof2ids df
             = Inr (int (length (rows df)) - int (length (rows ?f)), ?out)"
    if fm: "first_missing mof_cols (columns df) = None" and ne: "rows ?f \<noteq> []"
  proof -
    have "rows df \<noteq> []"
    proof
      assume "rows df = []"
      then have "rows ?f = []"
        by (simp add: identity_filter_def select_list_def reset_index_drop_def renumber_def)
      with ne show False by simp
    qed
    then have cols: "columns ?f = columns df"
      by (simp add: identity_filter_def select_list_def reset_index_drop_def)
    have "attach_id2mof mof2ids ?f = Inr ?out"
      using fm ne by (simp add: attach_id2mof_def cols lookup_rows_total [OF v])
    then obtain n where run: "identity_stage mof2ids df = Inr (n, ?out)"
      using fm by (simp add: identity_stage_def Let_def)
    have "n = int (length (rows df)) - int (length (rows ?out))"
      using run by (rule identity_stage_rows(2))
    then have "n = int (length (rows df)) - int (length (rows ?f))"
      by simp
    with run show ?thesis by simp
  qed
  show ?thesis
  proof (intro conjI impI)
    show "\<forall>p \<in> set (rows ?f). triple_of (snd p) \<in> dom mof2ids" by (rule a)
    show "identity_stage mof2ids df \<noteq> Inl (KeyError (TripleKey t))" by (rule c)
    show "get_prop_df rng score f targets mof2ids testing smiles_column compute_scscore
       \<noteq> Inl (KeyError (TripleKey t))" by (rule d)
    show "identity_stage mof2ids df
             = Inr (int (length (rows df)) - int (length (rows ?f)), ?out)"
      if "first_missing mof_cols (columns df) = None \<and> rows ?f \<noteq> []"
      using that e by blast
  qed
qed

lemma prop_file_filtered:
  "rows (identity_filter zn_registry (read_csv prop_file))
     = [(0, prop_row ''Zn'' True 10 20), (1, prop_row ''Zn'' False 10 20),
        (2, prop_row ''Zn'' True 200 20)]"
  by (simp add: identity_filter_def select_list_def reset_index_drop_def renumber_def
        read_csv_def prop_file_def valid_mof_def triple_of_def zn_registry_def prop_row_def
        mk_row_def upt_rec [of 0] upt_rec [of 1] upt_rec [of 2] upt_rec [of 3])

theorem id2mof_attachment_total_witness:
  "first_missing mof_cols (columns (read_csv prop_file)) = None
   \<and> rows (identity_filter zn_registry (read_csv prop_file))
       = [(0, prop_row ''Zn'' True 10 20), (1, prop_row ''Zn'' False 10 20),
          (2, prop_row ''Zn'' True 200 20)]
   \<and> triple_of (prop_row ''Zn'' True 10 20) \<in> dom zn_registry
   \<and> zn_registry (triple_of (prop_row ''Zn'' True 10 20)) = Some (Num 7)
   \<and> identity_stage zn_registry (read_csv prop_file)
       = Inr (1, \<lparr>columns = prop_header @ [''id2mof''],
                  rows = [(0, (prop_row ''Zn'' True 10 20)
                                (''id2mof'' := the (zn_registry (triple_of (prop_row ''Zn'' True 10 20))))),
                          (1, (prop_row ''Zn'' False 10 20)
                                (''id2mof'' := the (zn_registry (triple_of (prop_row ''Zn'' False 10 20))))),
                          (2, (prop_row ''Zn'' True 200 20)
                                (''id2mof'' := the (zn_registry (triple_of (prop_row ''Zn'' True 200 20)))))]\<rparr>)"
proof -
  note t = id2mof_attachment_total [of zn_registry "read_csv prop_file"
      "(Str ''Cu'', Str ''bdc'', Str ''pcu'')" "\<lambda>k. 0" "\<lambda>c. NaN" prop_file "[]" False "''smiles''" False]
  have fm: "first_missing mof_cols (columns (read_csv prop_file)) = None"
    by (simp add: first_missing_def mof_cols_def read_csv_def prop_file_def prop_header_def)
  have ne: "rows (identity_filter zn_registry (read_csv prop_file)) \<noteq> []"
    unfolding prop_file_filtered by simp
  have "(0, prop_row ''Zn'' True 10 20) \<in> set (rows (identity_filter zn_registry (read_csv prop_file)))"
    unfolding prop_file_filtered by simp
  with t have d: "triple_of (prop_row ''Zn'' True 10 20) \<in> dom zn_registry"
    by fastforce
  have k: "zn_registry (triple_of (prop_row ''Zn'' True 10 20)) = Some (Num 7)"
    by (simp add: zn_registry_def triple_of_def prop_row_def mk_row_def)
  have len: "length (rows (read_csv prop_file)) = 4"
    by (simp add: read_csv_def prop_file_def)
  have cols: "columns (read_csv prop_file) = prop_header"
    by (simp add: read_csv_def prop_file_def)
  have nid: "''id2mof'' \<notin> set prop_header"
    by (simp add: prop_header_def)
  from t fm ne have "identity_stage zn_registry (read_csv prop_file)
     = Inr (int (length (rows (read_csv prop_file)))
              - int (length (rows (identity_filter zn_registry (read_csv prop_file)))),
            \<lparr>columns = (if ''id2mof'' \<in> set (columns (read_csv prop_file))
                        then columns (read_csv prop_file)
                        else columns (read_csv prop_file) @ [''id2mof'']),
             rows = map (\<lambda>p. (fst p, (snd p)(''id2mof'' := the (zn_registry (triple_of (snd p))))))
                      (rows (identity_filter zn_registry (read_csv prop_file)))\<rparr>)"
    by blast
  then have run: "identity_stage zn_registry (read_csv prop_file)
       = Inr (1, \<lparr>columns = prop_header @ [''id2mof''],
                  rows = [(0, (prop_row ''Zn'' True 10 20)
                                (''id2mof'' := the (zn_registry (triple_of (prop_row ''Zn'' True 10 20))))),
                          (1, (prop_row ''Zn'' False 10 20)
                                (''id2mof'' := the (zn_registry (triple_of (prop_row ''Zn'' False 10 20))))),
                          (2, (prop_row ''Zn'' True 200 20)
                                (''id2mof'' := the (zn_registry (triple_of (prop_row ''Zn'' True 200 20)))))]\<rparr>)"
    unfolding prop_file_filtered len cols using nid by simp
  from fm prop_file_filtered d k run show ?thesis by (intro conjI)
qed

text \<open>
  The claim as stated, an attachment that is total, fails when the identity filter leaves
  no row: the only record of the file has a triple that is no key of the registry, the
  filtered frame is empty, \<^verbatim>\<open>apply\<close> hands back an empty frame instead of a column,
  and the assignment of line 186 raises.
\<close>

theorem id2mof_attachment_empty_counterexample:
  "rows (identity_filter zn_registry (read_csv cu_file)) = []
   \<and> identity_stage zn_registry (read_csv cu_file)
       = Inl (ValueError ''Cannot set a DataFrame with multiple columns to the single column id2mof'')
   \<and> get_prop_df (\<lambda>k. 0) (\<lambda>c. NaN) cu_file [] zn_registry False ''smiles'' False
       = Inl (ValueError ''Cannot set a DataFrame with multiple columns to the single column id2mof'')"
proof -
  have a: "identity_filter zn_registry (read_csv cu_file) = \<lparr>columns = prop_header, rows = []\<rparr>"
    by (simp add: identity_filter_def select_list_def reset_index_drop_def renumber_def
          read_csv_def cu_file_def valid_mof_def triple_of_def zn_registry_def masked_row_cells)
  have b: "identity_stage zn_registry (read_csv cu_file)
       = Inl (ValueError ''Cannot set a DataFrame with multiple columns to the single column id2mof'')"
    by (simp add: identity_stage_def a attach_id2mof_def first_missing_def mof_cols_def
          prop_header_def Let_def)
       (simp add: read_csv_def cu_file_def prop_header_def)
  have q: "mask_stage (read_csv cu_file) = Inr (0, read_csv cu_file)"
    by (simp add: mask_stage_def query_mask_def read_csv_def cu_file_def prop_header_def
          cell_of_def masked_row_cells reset_index_drop_def renumber_def)
  have c: "get_prop_df (\<lambda>k. 0) (\<lambda>c. NaN) cu_file [] zn_registry False ''smiles'' False
       = Inl (ValueError ''Cannot set a DataFrame with multiple columns to the single column id2mof'')"
    by (simp add: get_prop_df_def load_prop_def add_scscore_def q b)
  from a b c show ?thesis by simp
qed

text \<open>
  Claim C4, as amended. The outlier stage of \<^verbatim>\<open>get_prop_df\<close> keeps, in their order,
  exactly the rows whose two selectivity values are both strictly below 200.0, and its
  count is the number of the other rows: those with a value of 200.0 or more, or with a
  missing value, in one of the two columns. A row with two numbers is kept if and only if
  both are strictly less than 200.0.
\<close>

theorem outlier_stage_strict:
  assumes "outlier_stage df = Inr (n, out)"
  shows "map snd (rows out)
           = map snd (filter (\<lambda>p. below 200 (cell_of ''co2n2_selectivity'' p)
                                 \<and> below 200 (cell_of ''co2ch4_selectivity'' p)) (rows df))
         \<and> n = int (length (filter (\<lambda>p. \<not> (below 200 (cell_of ''co2n2_selectivity'' p)
                                 \<and> below 200 (cell_of ''co2ch4_selectivity'' p))) (rows df)))
         \<and> (\<forall>p \<in> set (rows df). \<forall>x y.
               cell_of ''co2n2_selectivity'' p = Num x \<and> cell_of ''co2ch4_selectivity'' p = Num y
               \<longrightarrow> (snd p \<in> set (map snd (rows out)) \<longleftrightarrow> x < 200 \<and> y < 200))"
proof -
  let ?P = "\<lambda>p. below 200 (cell_of ''co2n2_selectivity'' p)
                 \<and> below 200 (cell_of ''co2ch4_selectivity'' p)"
  have kept: "map snd (rows out) = map snd (filter ?P (rows df))"
    using assms by (rule outlier_stage_rows(1))
  have "length (rows out) = length (filter ?P (rows df))"
    using arg_cong [OF kept, of length] by simp
  moreover have "length (filter ?P (rows df)) + length (filter (\<lambda>p. \<not> ?P p) (rows df))
      = length (rows df)"
    by (rule sum_length_filter_compl)
  moreover have "n = int (length (rows df)) - int (length (rows out))"
    using assms by (rule outlier_stage_rows(2))
  ultimately have dropped: "n = int (length (filter (\<lambda>p. \<not> ?P p) (rows df)))"
    by linarith
  have num: "snd p \<in> set (map snd (rows out)) \<longleftrightarrow> x < 200 \<and> y < 200"
    if p: "p \<in> set (rows df)"
      and x: "cell_of ''co2n2_selectivity'' p = Num x"
      and y: "cell_of ''co2ch4_selectivity'' p = Num y" for p x y
  proof
    assume "snd p \<in> set (map snd (rows out))"
    then obtain q where "q \<in> set (rows df)" "?P q" "snd q = snd p"
      unfolding kept by auto
    then show "x < 200 \<and> y < 200"
      using x y by (simp add: cell_of_def)
  next
    assume "x < 200 \<and> y < 200"
    then have "p \<in> set (filter ?P (rows df))"
      using p x y by simp
    then show "snd p \<in> set (map snd (rows out))"
      unfolding kept by (rule mem_map_snd)
  qed
  from kept dropped num show ?thesis by blast
qed

lemma mixed_frame_run: "outlier_stage mixed_frame = Inr (2, mixed_result)"
  by (simp add: outlier_stage_def keep_below_def compare_lt_def select_series_def
        mixed_frame_def mixed_result_def read_csv_def prop_header_def cell_of_def prop_row_def
        mk_row_def reset_index_drop_def renumber_def
        upt_rec [of 0] upt_rec [of 1] upt_rec [of 2] upt_rec [of 3])

theorem outlier_stage_strict_witness:
  "outlier_stage mixed_frame = Inr (2, mixed_result)
   \<and> map snd (rows mixed_frame)
       = [prop_row ''Zn'' True 10 20, prop_row ''Zn'' True 250 20,
          prop_row ''Zn'' True 10 200, prop_row ''Zn'' True 199 0]
   \<and> map snd (rows mixed_result) = [prop_row ''Zn'' True 10 20, prop_row ''Zn'' True 199 0]
   \<and> length (filter (\<lambda>p. \<not> (below 200 (cell_of ''co2n2_selectivity'' p)
                                 \<and> below 200 (cell_of ''co2ch4_selectivity'' p)))
                (rows mixed_frame)) = 2"
proof -
  have a: "map snd (rows mixed_frame)
       = [prop_row ''Zn'' True 10 20, prop_row ''Zn'' True 250 20,
          prop_row ''Zn'' True 10 200, prop_row ''Zn'' True 199 0]"
    by (simp add: mixed_frame_def read_csv_def
          upt_rec [of 0] upt_rec [of 1] upt_rec [of 2] upt_rec [of 3])
  have b: "map snd (rows mixed_result) = [prop_row ''Zn'' True 10 20, prop_row ''Zn'' True 199 0]"
    by (simp add: mixed_result_def)
  from outlier_stage_strict [OF mixed_frame_run]
  have "(2::int) = int (length (filter (\<lambda>p. \<not> (below 200 (cell_of ''co2n2_selectivity'' p)
                                 \<and> below 200 (cell_of ''co2ch4_selectivity'' p)))
                (rows mixed_frame)))"
    by blast
  then have c: "length (filter (\<lambda>p. \<not> (below 200 (cell_of ''co2n2_selectivity'' p)
                                 \<and> below 200 (cell_of ''co2ch4_selectivity'' p)))
                (rows mixed_frame)) = 2"
    by linarith
  from mixed_frame_run a b c show ?thesis by blast
qed

text \<open>
  The claim as stated, that a row whose selectivity values are all at most 200.0 is
  kept, fails at the bound itself: a row with the values 200.0 and 10.0 is dropped,
  since the comparison of lines 195 and 196 is strict.
\<close>

theorem outlier_stage_boundary_counterexample:
  "map (cell_of ''co2n2_selectivity'') (rows boundary_frame) = [Num 200]
   \<and> map (cell_of ''co2ch4_selectivity'') (rows boundary_frame) = [Num 10]
   \<and> (200::real) \<le> 200 \<and> (10::real) \<le> 200
   \<and> outlier_stage boundary_frame = Inr (1, boundary_frame\<lparr>rows := []\<rparr>)"
  by (simp add: outlier_stage_def keep_below_def compare_lt_def select_series_def
        boundary_frame_def read_csv_def prop_header_def cell_of_def prop_row_def
        mk_row_def reset_index_drop_def renumber_def)

subsection \<open>The batched inference pipeline\<close>

lemma chunks_concat: "0 < n \<Longrightarrow> concat (chunks l n) = l"
proof (induction l n rule: chunks.induct)
  case (1 l n)
  show ?case
  proof (cases "l = []")
    case True
    then show ?thesis by (simp add: chunks.simps)
  next
    case False
    with 1 have "concat (chunks (drop n l) n) = drop n l" by simp
    with False 1(2) show ?thesis
      by (subst chunks.simps) simp
  qed
qed

lemma chunks_empty_iff: "0 < n \<Longrightarrow> chunks l n = [] \<longleftrightarrow> l = []"
  by (subst chunks.simps) simp

lemma chunks_last:
  "0 < n \<Longrightarrow> l \<noteq> [] \<Longrightarrow>
     length (last (chunks l n)) = (if length l mod n = 0 then n else length l mod n)"
proof (induction l n rule: chunks.induct)
  case (1 l n)
  have step: "chunks l n = take n l # chunks (drop n l) n"
    using 1(2,3) by (subst chunks.simps) simp
  show ?case
  proof (cases "drop n l = []")
    case True
    then have le: "length l \<le> n" by simp
    from True 1(2) have "chunks (drop n l) n = []" by (simp add: chunks_empty_iff)
    then have "length (last (chunks l n)) = length l"
      unfolding step using le by simp
    moreover have "0 < length l" using 1(3) by simp
    ultimately show ?thesis using le by (cases "length l = n") auto
  next
    case False
    then have gt: "n < length l" by simp
    from False 1(2) have ne: "chunks (drop n l) n \<noteq> []" by (simp add: chunks_empty_iff)
    have ih: "length (last (chunks (drop n l) n))
        = (if length (drop n l) mod n = 0 then n else length (drop n l) mod n)"
      using 1(1) 1(2,3) False by simp
    have "length (drop n l) mod n = length l mod n"
      using gt by (simp add: le_mod_geq)
    with ih ne show ?thesis
      unfolding step by simp
  qed
qed

lemma predict_loop_rows:
  assumes "\<forall>chunk \<in> set cs. predict_chunk c chunk = (map pred_row chunk, map true_row chunk)"
  shows "predict_loop c cs (y_pred, y_true)
           = (y_pred @ map pred_row (concat cs), y_true @ map true_row (concat cs))"
  using assms by (induction cs arbitrary: y_pred y_true) simp_all

lemma np_stack_rows:
  assumes "arrays \<noteq> []" and "\<forall>a \<in> set arrays. length a = w"
  shows "np_stack arrays = Inr arrays"
proof -
  from assms(1) obtain a as where s: "arrays = a # as" by (cases arrays) auto
  with assms(2) have "list_all (\<lambda>b. length b = length a) as"
    by (simp add: list_all_iff)
  then show ?thesis by (simp add: np_stack_def s)
qed

text \<open>
  Claim C5, as amended. Take a non-empty input sequence of \<open>N\<close> examples, a batch size
  \<open>B > 0\<close>, and collaborators that turn every chunk into one predicted row and one true
  row per example, in the order of the chunk, all rows of one width. Then
  \<^verbatim>\<open>predict_properties\<close> returns two arrays of exactly \<open>N\<close> rows each, row \<open>i\<close> of
  each computed from example \<open>i\<close>; the chunks, put end to end, are the input; and when
  \<open>N\<close> is no multiple of \<open>B\<close> the last chunk has \<open>N mod B\<close> examples.
\<close>

theorem predict_properties_rows:
  assumes b: "0 < batch_size" and n: "data \<noteq> []"
    and rowwise: "\<forall>chunk \<in> set (chunks data batch_size).
                    predict_chunk c chunk = (map pred_row chunk, map true_row chunk)"
    and width: "\<forall>e \<in> set data. length (pred_row e) = w \<and> length (true_row e) = w"
  shows "predict_properties data c batch_size = Inr (map pred_row data, map true_row data)
         \<and> length (map pred_row data) = length data
         \<and> length (map true_row data) = length data
         \<and> (\<forall>i < length data. map pred_row data ! i = pred_row (data ! i)
                                \<and> map true_row data ! i = true_row (data ! i))
         \<and> concat (chunks data batch_size) = data
         \<and> (length data mod batch_size \<noteq> 0
              \<longrightarrow> length (last (chunks data batch_size)) = length data mod batch_size)"
proof -
  have cat: "concat (chunks data batch_size) = data"
    using b by (rule chunks_concat)
  have loop: "predict_loop c (chunks data batch_size) ([], [])
                = (map pred_row data, map true_row data)"
    using predict_loop_rows [OF rowwise, of "[]" "[]"] unfolding cat by simp
  have sp: "np_stack (map pred_row data) = Inr (map pred_row data)"
    by (rule np_stack_rows [where w = w]) (use n width in auto)
  have st: "np_stack (map true_row data) = Inr (map true_row data)"
    by (rule np_stack_rows [where w = w]) (use n width in auto)
  have run: "predict_properties data c batch_size = Inr (map pred_row data, map true_row data)"
    using b by (simp add: predict_properties_def loop sp st)
  have last: "length (last (chunks data batch_size)) = length data mod batch_size"
    if "length data mod batch_size \<noteq> 0"
    using chunks_last [OF b n] that by simp
  show ?thesis
  proof (intro conjI allI impI)
    show "predict_properties data c batch_size = Inr (map pred_row data, map true_row data)"
      by (rule run)
    show "length (map pred_row data) = length data" by simp
    show "length (map true_row data) = length data" by simp
    show "map pred_row data ! i = pred_row (data ! i)" if "i < length data" for i
      using that by simp
    show "map true_row data ! i = true_row (data ! i)" if "i < length data" for i
      using that by simp
    show "concat (chunks data batch_size) = data" by (rule cat)
    show "length (last (chunks data batch_size)) = length data mod batch_size"
      if "length data mod batch_size \<noteq> 0"
      using that by (rule last)
  qed
qed

lemma toy_chunks: "chunks toy_data 2 = [[(1, 5), (2, 6)], [(3, 7)]]"
proof -
  have "chunks toy_data 2 = [(1, 5), (2, 6)] # chunks [(3, 7)] 2"
    by (subst chunks.simps) (simp add: toy_data_def)
  also have "chunks [(3, 7) :: nat \<times> nat] 2 = [(3, 7)] # chunks [] 2"
    by (subst chunks.simps) simp
  also have "chunks ([] :: (nat \<times> nat) list) 2 = []"
    by (subst chunks.simps) simp
  finally show ?thesis .
qed

lemma toy_chunk: "predict_chunk toy_model chunk = (map (\<lambda>e. [2 * fst e]) chunk, map (\<lambda>e. [snd e]) chunk)"
  by (simp add: predict_chunk_def toy_model_def comp_def)

theorem predict_properties_rows_witness:
  "(0::nat) < 2 \<and> toy_data \<noteq> []
   \<and> chunks toy_data 2 = [[(1, 5), (2, 6)], [(3, 7)]]
   \<and> predict_properties toy_data toy_model 2 = Inr ([[2], [4], [6]], [[5], [6], [7]])
   \<and> length toy_data mod 2 = 1
   \<and> length (last (chunks toy_data 2)) = 1"
proof -
  have b: "(0::nat) < 2" by simp
  have n: "toy_data \<noteq> []" by (simp add: toy_data_def)
  have r: "\<forall>chunk \<in> set (chunks toy_data 2).
             predict_chunk toy_model chunk = (map (\<lambda>e. [2 * fst e]) chunk, map (\<lambda>e. [snd e]) chunk)"
    by (simp add: toy_chunk)
  have w: "\<forall>e \<in> set toy_data. length [2 * fst e] = 1 \<and> length [snd e] = 1"
    by simp
  note t = predict_properties_rows [OF b n r w]
  have m: "length toy_data mod 2 = 1" by (simp add: toy_data_def)
  from t have run: "predict_properties toy_data toy_model 2 = Inr ([[2], [4], [6]], [[5], [6], [7]])"
    by (simp add: toy_data_def)
  from t m have l: "length (last (chunks toy_data 2)) = 1"
    by simp
  from b n toy_chunks run m l show ?thesis by (intro conjI)
qed

text \<open>
  The claim as stated, for every input sequence, fails at the sequence of no example:
  with the toy model and the batch size 64 the function returns no pair of arrays of
  zero rows, it raises.
\<close>

theorem predict_properties_no_example_counterexample:
  "length ([] :: (nat \<times> nat) list) = 0
   \<and> predict_properties [] toy_model 64 = Inl (ValueError ''need at least one array to stack'')"
  by (simp add: predict_properties_def np_stack_def chunks.simps [of "[]"])

text \<open>
  Claim C10. On the empty input sequence \<^verbatim>\<open>predict_properties\<close> returns no pair of
  empty arrays: it raises. With a positive batch size the loop runs over no chunk and
  the stacking of the empty list of predicted rows raises a \<open>ValueError\<close>; with a batch
  size of zero the division for the number of loops has raised before.
\<close>

theorem predict_properties_empty:
  "predict_properties [] c batch_size =
     Inl (if batch_size = 0 then ZeroDivisionError
          else ValueError ''need at least one array to stack'')"
  by (simp add: predict_properties_def chunks.simps np_stack_def)

end
